theory Spec2Isabelle
  imports Main
begin

section \<open>JavaScript values\<close>

text \<open>
  A property of a JavaScript object either holds a value or is \<open>undefined\<close> (read
  from an object that lacks it).  \<open>string | null\<close> is \<open>string option\<close>, with
  \<open>None\<close> for \<open>null\<close>.
\<close>

datatype 'a undef = Undefined | Def 'a

text \<open>A value used as a property key is converted to a string.\<close>

fun propKey :: "string undef \<Rightarrow> string" where
  "propKey Undefined = ''undefined''"
| "propKey (Def s) = s"

text \<open>\<open>if (parentId)\<close>: \<open>null\<close> and the empty string are falsy.\<close>

fun truthy :: "string option \<Rightarrow> bool" where
  "truthy None = False"
| "truthy (Some s) = (s \<noteq> [])"

text \<open>The decimal string of a number, as a template literal prints an integer.\<close>

definition digitChar :: "nat \<Rightarrow> char" where
  "digitChar d = ''0123456789'' ! d"

function natToString :: "nat \<Rightarrow> string" where
  "natToString n = (if n < 10 then [digitChar n] else natToString (n div 10) @ [digitChar (n mod 10)])"
  by pat_completeness auto
termination
  by (relation "measure (\<lambda>n. n)") auto

declare natToString.simps [simp del]

definition numberToString :: "int \<Rightarrow> string" where
  "numberToString i = (if i < 0 then CHR ''-'' # natToString (nat (- i)) else natToString (nat i))"


section \<open>Elements, the registry and the store\<close>

text \<open>
  Objects live in a heap and are held by reference, because the editor updates element
  objects in place and the registry shares them.  \<open>addr\<close> is a reference to an element
  object, \<open>maddr\<close> a reference to a mapping object (the \<open>elements\<close> record of the
  store), \<open>paddr\<close> a reference to a panel store.
\<close>

type_synonym addr = nat
type_synonym maddr = nat
type_synonym paddr = nat

text \<open>
  The properties of an \<open>EditableElement\<close> that the editor reads or writes.  The class is
  declared in another file; \<open>source\<close>, \<open>props\<close> and the lifecycle flags are never
  touched by the operations below and are left out.  A property is \<open>Undefined\<close> on the
  bare object literal that \<open>appendElement\<close> makes for a parent that is not registered.
  Every object of this heap has \<open>childIds\<close> of its own: an element from its
  constructor, a bare object from the assignment that follows its creation.
\<close>

record element =
  elementId :: "string undef"
  parentId :: "string option undef"
  childIds :: "string undef list"
  index :: "string undef"
  key :: "string option undef"

text \<open>The object literal \<open>{}\<close>, with the \<open>childIds\<close> it is given at once.\<close>

definition emptyObject :: element where
  "emptyObject = \<lparr>elementId = Undefined, parentId = Undefined, childIds = [], index = Undefined,
     key = Undefined\<rparr>"

text \<open>
  \<open>elements\<close> and \<open>panels\<close> are plain objects, so reading \<open>elements[k]\<close> also finds
  what the object inherits from \<open>Object.prototype\<close>: its function members, under the
  names below, and \<open>Object.prototype\<close> itself under \<open>__proto__\<close>.  These objects of the
  runtime are not elements.  The editor can give them a \<open>childIds\<close> property, and once
  \<open>Object.prototype\<close> has one, every plain object inherits the key \<open>childIds\<close>, whose
  value is an array object.
\<close>

definition prototypeFunctionNames :: "string list" where
  "prototypeFunctionNames =
     [''constructor'', ''__defineGetter__'', ''__defineSetter__'', ''hasOwnProperty'',
      ''__lookupGetter__'', ''__lookupSetter__'', ''isPrototypeOf'', ''propertyIsEnumerable'',
      ''toString'', ''valueOf'', ''toLocaleString'']"

datatype builtin = Fn string | ObjectPrototype | Arr nat

text \<open>What a key of the registry leads to: an object of the element heap or a built-in.\<close>

datatype ref = Elem addr | Builtin builtin

text \<open>
  \<open>Object.assign(target, source)\<close> copies every property the source has over the
  target's.  A property that an object has with the value \<open>undefined\<close> is not told apart
  from one it lacks.
\<close>

fun assignProp :: "'a undef \<Rightarrow> 'a undef \<Rightarrow> 'a undef" where
  "assignProp t Undefined = t"
| "assignProp t (Def v) = Def v"

definition objectAssign :: "element \<Rightarrow> element \<Rightarrow> element" where
  "objectAssign t s =
     \<lparr>elementId = assignProp (elementId t) (elementId s),
      parentId = assignProp (parentId t) (parentId s),
      childIds = childIds s,
      index = assignProp (index t) (index s),
      key = assignProp (key t) (key s)\<rparr>"

text \<open>
  \<open>EditorStoreStateType\<close>: the state held by the zustand store.  \<open>selectedId\<close> and
  \<open>selectedKey\<close> are \<open>null\<close> or a string, and \<open>undefined\<close> once \<open>select\<close> has
  stored the missing id or key of an object.
\<close>

record storeState =
  selectedId :: "string option undef"
  selectedKey :: "string option undef"
  elements :: maddr
  settingsPanel :: "string + paddr"

text \<open>One entry of a panel's data: \<open>{ value, ...metadata }\<close>.\<close>

record 'v dataItem =
  itemValue :: 'v

text \<open>
  The editor: its store, the heap of element objects, the heap of mapping objects, the
  \<open>childIds\<close> property that each built-in has of its own (none at first), the array
  object that is the current \<open>childIds\<close> of \<open>Object.prototype\<close>, and the panel store
  (panel names to panel handles, and each panel's data).
\<close>

record 'v editor =
  store :: storeState
  objs :: "addr \<Rightarrow> element"
  nextObj :: addr
  maps :: "maddr \<Rightarrow> (string \<rightharpoonup> ref)"
  nextMap :: maddr
  builtinChildIds :: "builtin \<Rightarrow> string undef list undef"
  protoArray :: nat
  nextArr :: nat
  panels :: "string \<rightharpoonup> paddr"
  panelData :: "paddr \<Rightarrow> (string \<rightharpoonup> 'v dataItem)"
  nextPanel :: paddr

text \<open>\<open>store.getState().elements\<close>, read through the reference: the keys it has of its own.\<close>

definition registry :: "'v editor \<Rightarrow> (string \<rightharpoonup> ref)" where
  "registry w = maps w (elements (store w))"

text \<open>The member that a plain object inherits under the key \<open>k\<close>, if any.\<close>

definition inheritedMember :: "'v editor \<Rightarrow> string \<Rightarrow> builtin option" where
  "inheritedMember w k =
     (if k \<in> set prototypeFunctionNames then Some (Fn k)
      else if k = ''__proto__'' then Some ObjectPrototype
      else if k = ''childIds'' then
        (case builtinChildIds w ObjectPrototype of
           Undefined \<Rightarrow> None
         | Def _ \<Rightarrow> Some (Arr (protoArray w)))
      else None)"

text \<open>\<open>m[k]\<close> on a plain object with the own keys \<open>m\<close>: an own key wins.\<close>

definition plainGet :: "'v editor \<Rightarrow> (string \<rightharpoonup> ref) \<Rightarrow> string \<Rightarrow> ref option" where
  "plainGet w m k =
     (case m k of
        Some r \<Rightarrow> Some r
      | None \<Rightarrow> map_option Builtin (inheritedMember w k))"

text \<open>
  \<open>x.childIds\<close>: the object's own property, or for a built-in that has none the one it
  inherits from \<open>Object.prototype\<close>.
\<close>

definition readChildIds :: "'v editor \<Rightarrow> ref \<Rightarrow> string undef list undef" where
  "readChildIds w r =
     (case r of
        Elem a \<Rightarrow> Def (childIds (objs w a))
      | Builtin b \<Rightarrow>
          (case builtinChildIds w b of
             Def cs \<Rightarrow> Def cs
           | Undefined \<Rightarrow>
               (if b = ObjectPrototype then Undefined else builtinChildIds w ObjectPrototype)))"

text \<open>\<open>x?.childIds ?? []\<close>.\<close>

definition childIdsOrEmpty :: "'v editor \<Rightarrow> ref \<Rightarrow> string undef list" where
  "childIdsOrEmpty w r = (case readChildIds w r of Undefined \<Rightarrow> [] | Def cs \<Rightarrow> cs)"

text \<open>Writing one object of the heap.\<close>

definition updObj :: "addr \<Rightarrow> (element \<Rightarrow> element) \<Rightarrow> 'v editor \<Rightarrow> 'v editor" where
  "updObj a f w = w\<lparr>objs := (objs w)(a := f (objs w a))\<rparr>"

text \<open>
  \<open>x.childIds = cs\<close> with a new array \<open>cs\<close>.  On \<open>Object.prototype\<close> the new array
  becomes what the key \<open>childIds\<close> leads to.
\<close>

definition writeChildIds :: "ref \<Rightarrow> string undef list \<Rightarrow> 'v editor \<Rightarrow> 'v editor" where
  "writeChildIds r cs w =
     (case r of
        Elem a \<Rightarrow> updObj a (\<lambda>x. x\<lparr>childIds := cs\<rparr>) w
      | Builtin b \<Rightarrow>
          (if b = ObjectPrototype
           then w\<lparr>builtinChildIds := (builtinChildIds w)(b := Def cs),
                  protoArray := nextArr w, nextArr := Suc (nextArr w)\<rparr>
           else w\<lparr>builtinChildIds := (builtinChildIds w)(b := Def cs)\<rparr>))"

text \<open>
  \<open>Object.assign(element, source)\<close> for what a lookup found.  Of the properties kept
  in the element record, a built-in can only have \<open>childIds\<close>, and it is copied when
  the built-in has it of its own.
\<close>

definition assignFrom :: "addr \<Rightarrow> ref \<Rightarrow> 'v editor \<Rightarrow> 'v editor" where
  "assignFrom e r w =
     (case r of
        Elem s \<Rightarrow> updObj e (\<lambda>x. objectAssign x (objs w s)) w
      | Builtin b \<Rightarrow>
          (case builtinChildIds w b of
             Undefined \<Rightarrow> w
           | Def cs \<Rightarrow> updObj e (\<lambda>x. x\<lparr>childIds := cs\<rparr>) w))"

text \<open>
  Modelled from the spec: the constructor of \<open>EditableElement\<close> is not in this file.
  \<open>new EditableElement(id, source, componentType, parentId, props)\<close> makes an element
  with the given id and parent id and with no children; its \<open>index\<close> is not set.  Of
  \<open>source\<close> only the key that \<open>select\<close> reads is kept.
\<close>

definition newEditableElement :: "string \<Rightarrow> string option \<Rightarrow> string option \<Rightarrow> element" where
  "newEditableElement i p k =
     \<lparr>elementId = Def i, parentId = Def p, childIds = [], index = Undefined, key = Def k\<rparr>"

text \<open>
  \<open>createEditorStore\<close> and the constructor of \<open>Editor\<close>: the root element
  \<open>new EditableElement("root", {}, "editor", null)\<close> at address 0, with
  \<open>root.index = ""\<close>; the panel store holds the panel \<open>default\<close>; no built-in has
  \<open>childIds\<close>.
\<close>

definition rootElement :: element where
  "rootElement = (newEditableElement ''root'' None None)\<lparr>index := Def []\<rparr>"

definition createEditor :: "'v editor" where
  "createEditor =
     \<lparr>store = \<lparr>selectedId = Def None, selectedKey = Def None, elements = 0,
               settingsPanel = Inl ''scene''\<rparr>,
      objs = (\<lambda>_. emptyObject)(0 := rootElement),
      nextObj = 1,
      maps = (\<lambda>_. Map.empty)(0 := [''root'' \<mapsto> Elem 0]),
      nextMap = 1,
      builtinChildIds = (\<lambda>_. Undefined),
      protoArray = 0,
      nextArr = 0,
      panels = [''default'' \<mapsto> 0],
      panelData = (\<lambda>_. Map.empty),
      nextPanel = 1\<rparr>"

text \<open>
  \<open>createElement(id, source, componentType, props)\<close>: a new element object with
  \<open>parentId = null\<close>.  The function returns the reference and the editor with the
  object allocated.
\<close>

definition createElement :: "string \<Rightarrow> string option \<Rightarrow> 'v editor \<Rightarrow> addr \<times> 'v editor" where
  "createElement i k w =
     (nextObj w,
      w\<lparr>objs := (objs w)(nextObj w := newEditableElement i None k),
        nextObj := Suc (nextObj w)\<rparr>)"

text \<open>
  \<open>setState\<close> with a new \<open>elements\<close> object: the mapping is allocated and the store
  refers to it.
\<close>

definition setElements :: "(string \<rightharpoonup> ref) \<Rightarrow> 'v editor \<Rightarrow> 'v editor" where
  "setElements m w =
     w\<lparr>maps := (maps w)(nextMap w := m),
       nextMap := Suc (nextMap w),
       store := (store w)\<lparr>elements := nextMap w\<rparr>\<rparr>"

text \<open>A new object \<open>{}\<close> in the heap.\<close>

definition newObject :: "'v editor \<Rightarrow> 'v editor" where
  "newObject w = w\<lparr>objs := (objs w)(nextObj w := emptyObject), nextObj := Suc (nextObj w)\<rparr>"

text \<open>
  \<open>appendElement\<close>, the branch \<open>if (parentId)\<close>.  In source order: the element's
  \<open>parentId\<close> is written; \<open>el.elements[parentId] ?? {}\<close> is what the lookup finds or a
  new bare object; the parent gets \<open>childIds\<close>, its previous ones (if it has any) with
  \<open>element.id\<close> appended; what \<open>el.elements[element.id]\<close> finds, if anything, is merged
  over the element; the element's \<open>index\<close> is written; the new mapping holds the element
  under its id and the parent under \<open>parentId\<close> (the later key wins).
\<close>

definition appendWithParent :: "addr \<Rightarrow> string \<Rightarrow> 'v editor \<Rightarrow> 'v editor" where
  "appendWithParent e pid w =
     (let w1 = updObj e (\<lambda>x. x\<lparr>parentId := Def (Some pid)\<rparr>) w;
          el = registry w1;
          (pa, w2) = (case plainGet w1 el pid of
                        Some r \<Rightarrow> (r, w1)
                      | None \<Rightarrow> (Elem (nextObj w1), newObject w1));
          newChildIds = childIdsOrEmpty w2 pa @ [elementId (objs w2 e)];
          w3 = writeChildIds pa newChildIds w2;
          w4 = (case plainGet w3 el (propKey (elementId (objs w3 e))) of
                  None \<Rightarrow> w3
                | Some s \<Rightarrow> assignFrom e s w3);
          w5 = updObj e (\<lambda>x. x\<lparr>index :=
                 Def (numberToString (int (length (childIdsOrEmpty w4 pa)) - 1))\<rparr>) w4
      in setElements ((el(propKey (elementId (objs w5 e)) \<mapsto> Elem e))(pid \<mapsto> pa)) w5)"

text \<open>
  \<open>appendElement\<close>, the other branch: the computed key \<open>element.id\<close> is evaluated
  before the merge.
\<close>

definition appendTopLevel :: "addr \<Rightarrow> 'v editor \<Rightarrow> 'v editor" where
  "appendTopLevel e w =
     (let el = registry w;
          k = propKey (elementId (objs w e));
          w1 = (case plainGet w el k of
                  None \<Rightarrow> w
                | Some s \<Rightarrow> assignFrom e s w)
      in setElements (el(k \<mapsto> Elem e)) w1)"

definition appendElement :: "addr \<Rightarrow> string option \<Rightarrow> 'v editor \<Rightarrow> 'v editor" where
  "appendElement e p w =
     (if truthy p then appendWithParent e (the p) w else appendTopLevel e w)"

text \<open>What a call can throw: a \<open>TypeError\<close>, or any other error with its message.\<close>

datatype error = TypeError | Thrown string

text \<open>
  \<open>removeElement\<close>, the branch \<open>if (parentId)\<close>: the element's \<open>parentId\<close> becomes
  \<open>null\<close>; the mapping is copied; when the lookup of \<open>parentId\<close> in the copy finds an
  object, that object gets its \<open>childIds\<close> filtered, and \<open>.filter\<close> throws a
  \<open>TypeError\<close> when the object has no \<open>childIds\<close>; the element's key is deleted from
  the copy.  A throw inside \<open>setState\<close> leaves the store as it was, the element's
  \<open>parentId\<close> already written.  The result is the error, if any, and the editor after
  the call.
\<close>

definition removeWithParent :: "addr \<Rightarrow> string \<Rightarrow> 'v editor \<Rightarrow> error option \<times> 'v editor" where
  "removeWithParent e pid w =
     (let w1 = updObj e (\<lambda>x. x\<lparr>parentId := Def None\<rparr>) w;
          el = registry w1
      in case plainGet w1 el pid of
           None \<Rightarrow> (None, setElements (el(propKey (elementId (objs w1 e)) := None)) w1)
         | Some pa \<Rightarrow>
             (case readChildIds w1 pa of
                Undefined \<Rightarrow> (Some TypeError, w1)
              | Def cs \<Rightarrow>
                  (let w2 = writeChildIds pa (filter (\<lambda>c. c \<noteq> elementId (objs w1 e)) cs) w1
                   in (None, setElements (el(propKey (elementId (objs w2 e)) := None)) w2))))"

text \<open>
  \<open>removeElement\<close>, the other branch: \<open>{ ...el }\<close> copies the state, not the mapping, so
  the key is deleted from the mapping object the store already refers to.
\<close>

definition removeTopLevel :: "addr \<Rightarrow> 'v editor \<Rightarrow> 'v editor" where
  "removeTopLevel e w =
     w\<lparr>maps := (maps w)(elements (store w) :=
          (registry w)(propKey (elementId (objs w e)) := None))\<rparr>"

definition removeElement :: "addr \<Rightarrow> string option \<Rightarrow> 'v editor \<Rightarrow> error option \<times> 'v editor" where
  "removeElement e p w =
     (if truthy p then removeWithParent e (the p) w else (None, removeTopLevel e w))"

text \<open>
  \<open>getElementById\<close>: \<open>elements[id]\<close>, an own entry or an inherited member;
  \<open>None\<close> is \<open>undefined\<close>.
\<close>

definition getElementById :: "string \<Rightarrow> 'v editor \<Rightarrow> ref option" where
  "getElementById i w = plainGet w (registry w) i"

subsection \<open>Selection\<close>

text \<open>An id as \<open>selectedId\<close> holds it: a string, or \<open>undefined\<close> for a missing id.\<close>

fun asSelection :: "string undef \<Rightarrow> string option undef" where
  "asSelection Undefined = Undefined"
| "asSelection (Def s) = Def (Some s)"

definition select :: "addr \<Rightarrow> 'v editor \<Rightarrow> 'v editor" where
  "select e w =
     w\<lparr>store := (store w)\<lparr>selectedId := asSelection (elementId (objs w e)),
                           selectedKey := key (objs w e)\<rparr>\<rparr>"

definition selectId :: "string \<Rightarrow> 'v editor \<Rightarrow> 'v editor" where
  "selectId i w = (if i = [] then w else w\<lparr>store := (store w)\<lparr>selectedId := Def (Some i)\<rparr>\<rparr>)"

definition clearSelection :: "'v editor \<Rightarrow> 'v editor" where
  "clearSelection w = w\<lparr>store := (store w)\<lparr>selectedId := Def None, selectedKey := Def None\<rparr>\<rparr>"

text \<open>\<open>isSelected\<close>: \<open>selectedId === arg0.id\<close>.\<close>

definition isSelected :: "addr \<Rightarrow> 'v editor \<Rightarrow> bool" where
  "isSelected e w = (selectedId (store w) = asSelection (elementId (objs w e)))"

definition selectKey :: "string \<Rightarrow> 'v editor \<Rightarrow> 'v editor" where
  "selectKey k w = (if k = [] then w else w\<lparr>store := (store w)\<lparr>selectedKey := Def (Some k)\<rparr>\<rparr>)"

text \<open>
  \<open>deleteElement\<close>: \<open>element.delete()\<close> belongs to \<open>EditableElement\<close>, which is not in
  this file, so it is a parameter: it may change the editor or throw.  Then the selection is
  cleared.
\<close>

definition deleteElement ::
  "(addr \<Rightarrow> 'v editor \<Rightarrow> error + 'v editor) \<Rightarrow> addr \<Rightarrow> 'v editor \<Rightarrow> error + 'v editor" where
  "deleteElement elementDelete e w =
     (case elementDelete e w of
        Inl err \<Rightarrow> Inl err
      | Inr w' \<Rightarrow> Inr (clearSelection w'))"

text \<open>
  Modelled from the spec: the method \<open>delete\<close> of \<open>EditableElement\<close> is not in
  this file.  The spec calls it the element's terminal-deletion procedure, which marks the
  element deleted and detaches it from all tree links; and when an element \<open>A\<close> with
  the child \<open>B\<close> is deleted, \<open>A\<close> and \<open>B\<close> are both removed from \<open>elements\<close>
  and the \<open>childIds\<close> of the parent no longer contains \<open>A\<close>.  So the element's id
  leaves the \<open>childIds\<close> of the entry for its parent, its \<open>parentId\<close> becomes
  \<open>null\<close>, and the keys of the element and of its descendants, found through
  \<open>childIds\<close>, leave the mapping, which is replaced as by the other registry mutations.
  The \<open>deleted\<close> flag is not among the properties kept in the element record.  The
  number \<open>n\<close> is the depth to which descendants are followed: the tree is finite, and
  any \<open>n\<close> that is at least its height removes them all.
\<close>

definition childKeys :: "'v editor \<Rightarrow> string \<Rightarrow> string list" where
  "childKeys w k =
     (case registry w k of
        None \<Rightarrow> []
      | Some r \<Rightarrow> map propKey (childIdsOrEmpty w r))"

fun subtreeKeys :: "nat \<Rightarrow> (string \<Rightarrow> string list) \<Rightarrow> string \<Rightarrow> string list" where
  "subtreeKeys 0 ch k = [k]"
| "subtreeKeys (Suc n) ch k = k # concat (map (subtreeKeys n ch) (ch k))"

definition detachFromParent :: "addr \<Rightarrow> 'v editor \<Rightarrow> 'v editor" where
  "detachFromParent e w =
     (case parentId (objs w e) of
        Def (Some p) \<Rightarrow>
          (case registry w p of
             None \<Rightarrow> w
           | Some pa \<Rightarrow>
               writeChildIds pa
                 (filter (\<lambda>c. c \<noteq> elementId (objs w e)) (childIdsOrEmpty w pa)) w)
      | _ \<Rightarrow> w)"

definition editableElementDelete :: "nat \<Rightarrow> addr \<Rightarrow> 'v editor \<Rightarrow> error + 'v editor" where
  "editableElementDelete n e w =
     (let gone = subtreeKeys n (childKeys w) (propKey (elementId (objs w e)));
          w1 = updObj e (\<lambda>x. x\<lparr>parentId := Def None\<rparr>) (detachFromParent e w)
      in Inr (setElements (\<lambda>k. if k \<in> set gone then None else registry w k) w1))"

subsection \<open>Panels and settings\<close>

text \<open>
  Modelled from the spec: \<open>createLevaStore\<close> and the panel store's methods
  (\<open>getData\<close>, \<open>get\<close>, \<open>setValueAtPath\<close>) are not in this file.  A panel is a
  named configuration store whose data maps a dotted path to \<open>{ value, ...metadata }\<close>; a
  new store has no data; \<open>get(path)\<close> reads the value at a path (\<open>undefined\<close> where
  there is none); \<open>setValueAtPath(path, value, fromPanel)\<close> writes the value at the
  path.  The store's write has no guard of its own: the spec puts the test for an existing
  key in \<open>setSetting\<close>, to prevent settings created by a typing mistake, so on a path
  that has no entry the write makes one.
\<close>

definition panelGet :: "(string \<rightharpoonup> 'v dataItem) \<Rightarrow> string \<Rightarrow> 'v undef" where
  "panelGet d path = (case d path of None \<Rightarrow> Undefined | Some it \<Rightarrow> Def (itemValue it))"

definition setValueAtPath :: "paddr \<Rightarrow> string \<Rightarrow> 'v \<Rightarrow> 'v editor \<Rightarrow> 'v editor" where
  "setValueAtPath h path v w =
     w\<lparr>panelData := (panelData w)(h := (panelData w h)(path \<mapsto>
        (case panelData w h path of
           None \<Rightarrow> \<lparr>itemValue = v\<rparr>
         | Some it \<Rightarrow> it\<lparr>itemValue := v\<rparr>)))\<rparr>"

text \<open>
  \<open>getPanel\<close>: a handle is returned as it is.  For a name, \<open>panels[name]\<close> is read:
  a panel registered under the name is returned; under a name that \<open>panels\<close> inherits
  the value read is truthy and has no \<open>panel\<close>, so the result is \<open>undefined\<close> and
  nothing is made; otherwise a new store is made and registered under the name.
\<close>

definition getPanel :: "string + paddr \<Rightarrow> 'v editor \<Rightarrow> paddr undef \<times> 'v editor" where
  "getPanel name w =
     (case name of
        Inr h \<Rightarrow> (Def h, w)
      | Inl n \<Rightarrow>
          (case panels w n of
             Some h \<Rightarrow> (Def h, w)
           | None \<Rightarrow>
               (case inheritedMember w n of
                  Some _ \<Rightarrow> (Undefined, w)
                | None \<Rightarrow>
                    (Def (nextPanel w),
                     w\<lparr>panels := (panels w)(n \<mapsto> nextPanel w),
                       panelData := (panelData w)(nextPanel w := Map.empty),
                       nextPanel := Suc (nextPanel w)\<rparr>))))"

text \<open>The getter and the setter \<open>settingsPanel\<close>.\<close>

definition getSettingsPanel :: "'v editor \<Rightarrow> paddr undef \<times> 'v editor" where
  "getSettingsPanel w = getPanel (settingsPanel (store w)) w"

definition setSettingsPanel :: "string + paddr \<Rightarrow> 'v editor \<Rightarrow> 'v editor" where
  "setSettingsPanel arg0 w = w\<lparr>store := (store w)\<lparr>settingsPanel := arg0\<rparr>\<rparr>"

text \<open>
  The composite key \<open>"world." + mode + " settings." + key\<close>.  The mode is whatever value
  the panel holds at \<open>world.mode\<close>; string concatenation converts it, and the conversion
  of a stored value is the parameter \<open>toStr\<close>.  A composite key is never a name that the
  data object inherits, so reading it finds an own entry or nothing.
\<close>

definition settingPath :: "('v \<Rightarrow> string) \<Rightarrow> 'v undef \<Rightarrow> string \<Rightarrow> string" where
  "settingPath toStr mode k =
     ''world.'' @ (case mode of Undefined \<Rightarrow> ''undefined'' | Def m \<Rightarrow> toStr m) @ '' settings.'' @ k"

text \<open>
  \<open>setSetting\<close>: each use of \<open>this.settingsPanel\<close> runs the getter, and a method call
  on \<open>undefined\<close> throws a \<open>TypeError\<close>.  The result is the error, if any, and the
  editor after the call.
\<close>

definition setSetting ::
  "('v \<Rightarrow> string) \<Rightarrow> string \<Rightarrow> 'v \<Rightarrow> 'v editor \<Rightarrow> error option \<times> 'v editor" where
  "setSetting toStr arg0 arg1 w =
     (case getSettingsPanel w of
        (Undefined, w1) \<Rightarrow> (Some TypeError, w1)
      | (Def h1, w1) \<Rightarrow>
          (let mode = panelGet (panelData w1 h1) ''world.mode'' in
           case getSettingsPanel w1 of
             (Undefined, w2) \<Rightarrow> (Some TypeError, w2)
           | (Def h2, w2) \<Rightarrow>
               (case panelData w2 h2 (settingPath toStr mode arg0) of
                  None \<Rightarrow> (None, w2)
                | Some _ \<Rightarrow>
                    (case getSettingsPanel w2 of
                       (Undefined, w3) \<Rightarrow> (Some TypeError, w3)
                     | (Def h3, w3) \<Rightarrow>
                         (None, setValueAtPath h3 (settingPath toStr mode arg0) arg1 w3)))))"

text \<open>
  \<open>setSettings\<close>: \<open>vals\<close> are the entries that the loop \<open>for (let key in values)\<close>
  visits, in order.  \<open>getPanel\<close> of \<open>undefined\<close> is \<open>undefined\<close>, and reading
  \<open>useStore\<close> of it throws.  Reading \<open>.value\<close> of a missing \<open>world.mode\<close> entry
  and writing \<open>.value\<close> of a missing entry both throw a \<open>TypeError\<close>; the entries
  written before stay written, since the items are updated in place.
\<close>

fun setSettingsLoop ::
  "('v \<Rightarrow> string) \<Rightarrow> (string \<times> 'v) list \<Rightarrow> (string \<rightharpoonup> 'v dataItem)
     \<Rightarrow> error option \<times> (string \<rightharpoonup> 'v dataItem)" where
  "setSettingsLoop toStr [] d = (None, d)"
| "setSettingsLoop toStr ((k, v) # kvs) d =
     (case d ''world.mode'' of
        None \<Rightarrow> (Some TypeError, d)
      | Some m \<Rightarrow>
          (case d (settingPath toStr (Def (itemValue m)) k) of
             None \<Rightarrow> (Some TypeError, d)
           | Some it \<Rightarrow>
               setSettingsLoop toStr kvs
                 (d(settingPath toStr (Def (itemValue m)) k \<mapsto> it\<lparr>itemValue := v\<rparr>))))"

definition setSettings ::
  "('v \<Rightarrow> string) \<Rightarrow> (string \<times> 'v) list \<Rightarrow> 'v editor \<Rightarrow> error option \<times> 'v editor" where
  "setSettings toStr vals w =
     (case getSettingsPanel w of
        (Undefined, w1) \<Rightarrow> (Some TypeError, w1)
      | (Def h1, w1) \<Rightarrow>
          (case getPanel (Inr h1) w1 of
             (Undefined, w2) \<Rightarrow> (Some TypeError, w2)
           | (Def h2, w2) \<Rightarrow>
               (case setSettingsLoop toStr vals (panelData w2 h2) of
                  (r, d) \<Rightarrow> (r, w2\<lparr>panelData := (panelData w2)(h2 := d)\<rparr>))))"

text \<open>
  The same loop as the spec words it: the mode is resolved once, when the call begins, and
  every entry is then written under that mode.  It is compared with \<open>setSettingsLoop\<close>
  below.
\<close>

fun writeEach ::
  "(string \<Rightarrow> string) \<Rightarrow> (string \<times> 'v) list \<Rightarrow> (string \<rightharpoonup> 'v dataItem)
     \<Rightarrow> error option \<times> (string \<rightharpoonup> 'v dataItem)" where
  "writeEach pathOf [] d = (None, d)"
| "writeEach pathOf ((k, v) # kvs) d =
     (case d (pathOf k) of
        None \<Rightarrow> (Some TypeError, d)
      | Some it \<Rightarrow> writeEach pathOf kvs (d(pathOf k \<mapsto> it\<lparr>itemValue := v\<rparr>)))"

definition setSettingsModeOnce ::
  "('v \<Rightarrow> string) \<Rightarrow> (string \<times> 'v) list \<Rightarrow> (string \<rightharpoonup> 'v dataItem)
     \<Rightarrow> error option \<times> (string \<rightharpoonup> 'v dataItem)" where
  "setSettingsModeOnce toStr vals d =
     (if vals = [] then (None, d)
      else case d ''world.mode'' of
             None \<Rightarrow> (Some TypeError, d)
           | Some m \<Rightarrow> writeEach (settingPath toStr (Def (itemValue m))) vals d)"

subsection \<open>Persistence\<close>

text \<open>
  \<open>client.save(data): Promise<void>\<close> is the external persistence client.  A call
  either resolves or rejects, and may change the client's own state \<open>'c\<close>; \<open>Some err\<close>
  is a rejection.  \<open>await\<close> of a rejected promise throws.
\<close>

type_synonym ('d, 'c) client = "'d \<Rightarrow> 'c \<Rightarrow> error option \<times> 'c"

definition saveDiff :: "('d, 'c) client \<Rightarrow> 'd \<Rightarrow> 'c \<Rightarrow> error option \<times> 'c" where
  "saveDiff client diff c = client diff c"

fun save :: "('d, 'c) client \<Rightarrow> 'd list \<Rightarrow> 'c \<Rightarrow> error option \<times> 'c" where
  "save client [] c = (None, c)"
| "save client (diff # diffs) c =
     (case saveDiff client diff c of
        (Some err, c') \<Rightarrow> (Some err, c')
      | (None, c') \<Rightarrow> save client diffs c')"

text \<open>
  A client that also records every call it completes, with the outcome, in the order of
  completion.  It is used to state what \<open>save\<close> asks of the client.
\<close>

definition recording :: "('d, 'c) client \<Rightarrow> ('d, 'c \<times> ('d \<times> error option) list) client" where
  "recording client diff s =
     (case client diff (fst s) of (r, c') \<Rightarrow> (r, (c', snd s @ [(diff, r)])))"



subsection \<open>Well-formed registries and reachable editors\<close>

text \<open>The registry has an entry \<open>root\<close>, an element whose \<open>parentId\<close> is \<open>null\<close>.\<close>

definition hasRoot :: "'v editor \<Rightarrow> bool" where
  "hasRoot w =
     (case registry w ''root'' of
        Some (Elem a) \<Rightarrow> parentId (objs w a) = Def None
      | _ \<Rightarrow> False)"

text \<open>
  A well-formed registry: the root element is the object at address 0, registered under
  \<open>root\<close>; every registered element reference is an allocated object; and an object
  that has an id is registered under that id only.
\<close>

definition registryInv :: "'v editor \<Rightarrow> bool" where
  "registryInv w =
     (registry w ''root'' = Some (Elem 0) \<and> elementId (objs w 0) = Def ''root''
      \<and> parentId (objs w 0) = Def None \<and> 0 < nextObj w
      \<and> (\<forall>k a. registry w k = Some (Elem a) \<longrightarrow>
            a < nextObj w \<and> (elementId (objs w a) = Undefined \<or> elementId (objs w a) = Def k)))"

text \<open>No \<open>childIds\<close> names the root: neither an object's nor a built-in's.\<close>

definition noRootChild :: "'v editor \<Rightarrow> bool" where
  "noRootChild w =
     ((\<forall>a. Def ''root'' \<notin> set (childIds (objs w a)))
      \<and> (\<forall>b cs. builtinChildIds w b = Def cs \<longrightarrow> Def ''root'' \<notin> set cs))"

text \<open>
  The editors reached from \<open>createEditor\<close> by \<open>createElement\<close>, the selection
  operations, and \<open>appendElement\<close>, \<open>removeElement\<close> and \<open>deleteElement\<close> given
  an element object that exists and whose id is not \<open>root\<close>.  \<open>removeElement\<close>
  leaves the editor where it is when it throws; \<open>deleteElement\<close> runs the deletion
  procedure of the spec, to any depth.
\<close>

inductive reachable :: "'v editor \<Rightarrow> bool" where
  r_init: "reachable createEditor"
| r_create: "reachable w \<Longrightarrow> reachable (snd (createElement i k w))"
| r_append: "reachable w \<Longrightarrow> e < nextObj w \<Longrightarrow> elementId (objs w e) = Def i
     \<Longrightarrow> i \<noteq> ''root'' \<Longrightarrow> reachable (appendElement e p w)"
| r_remove: "reachable w \<Longrightarrow> e < nextObj w \<Longrightarrow> elementId (objs w e) = Def i
     \<Longrightarrow> i \<noteq> ''root'' \<Longrightarrow> reachable (snd (removeElement e p w))"
| r_delete: "reachable w \<Longrightarrow> e < nextObj w \<Longrightarrow> elementId (objs w e) = Def i
     \<Longrightarrow> i \<noteq> ''root'' \<Longrightarrow> deleteElement (editableElementDelete n) e w = Inr w'
     \<Longrightarrow> reachable w'"
| r_select: "reachable w \<Longrightarrow> reachable (select e w)"
| r_selectId: "reachable w \<Longrightarrow> reachable (selectId i w)"
| r_selectKey: "reachable w \<Longrightarrow> reachable (selectKey k w)"
| r_clear: "reachable w \<Longrightarrow> reachable (clearSelection w)"

subsection \<open>Example editors\<close>

text \<open>
  An editor with three elements created and none registered: \<open>x\<close> at address 1, \<open>b\<close> at
  address 2 and a second element object with the id \<open>x\<close> at address 3.
\<close>

definition threeElements :: "string editor" where
  "threeElements =
     snd (createElement ''x'' None (snd (createElement ''b'' None
       (snd (createElement ''x'' None createEditor)))))"

text \<open>The same editor after \<open>appendElement\<close> of the first \<open>x\<close> under \<open>root\<close>.\<close>

definition xAppended :: "string editor" where
  "xAppended = appendElement 1 (Some ''root'') threeElements"

text \<open>And after \<open>appendElement\<close> of \<open>b\<close> under \<open>root\<close> as well.\<close>

definition bAppended :: "string editor" where
  "bAppended = appendElement 2 (Some ''root'') xAppended"

text \<open>
  A child mounted before its parent: \<open>appendElement\<close> of \<open>x\<close> under \<open>b\<close> while \<open>b\<close>
  is not registered leaves a bare object with \<open>childIds = ["x"]\<close> under \<open>b\<close>.
\<close>

definition childFirst :: "string editor" where
  "childFirst = appendElement 1 (Some ''b'') threeElements"

text \<open>
  An editor whose settings panel \<open>scene\<close> is in mode \<open>editor\<close> and holds the setting
  \<open>grid\<close> for that mode.
\<close>

definition settingsExample :: "string editor" where
  "settingsExample =
     createEditor\<lparr>panels := [''default'' \<mapsto> 0, ''scene'' \<mapsto> 1],
       panelData := (\<lambda>_. Map.empty)(1 :=
         [''world.mode'' \<mapsto> \<lparr>itemValue = ''editor''\<rparr>,
          ''world.editor settings.grid'' \<mapsto> \<lparr>itemValue = ''on''\<rparr>]),
       nextPanel := 2\<rparr>"

text \<open>
  A persistence client whose state is the list of diffs it has stored, and which rejects
  the diff \<open>bad\<close>.
\<close>

definition rejecting :: "string \<Rightarrow> (string, string list) client" where
  "rejecting bad diff stored =
     (if diff = bad then (Some (Thrown ''rejected''), stored) else (None, stored @ [diff]))"

section \<open>Basic facts about the heap operations\<close>

lemma natToString_small: "n < 10 \<Longrightarrow> natToString n = [digitChar n]"
  by (simp add: natToString.simps)

lemma rootElement_record:
  "rootElement =
     \<lparr>elementId = Def ''root'', parentId = Def None, childIds = [], index = Def [],
      key = Def None\<rparr>"
  by (simp add: rootElement_def newEditableElement_def)

lemma inheritedMember_eqI:
  assumes "builtinChildIds w' = builtinChildIds w" and "protoArray w' = protoArray w"
  shows "inheritedMember w' = inheritedMember w"
  using assms by (auto simp add: inheritedMember_def fun_eq_iff split: undef.splits)

lemma plainGet_eqI:
  assumes "builtinChildIds w' = builtinChildIds w" and "protoArray w' = protoArray w"
  shows "plainGet w' = plainGet w"
  using inheritedMember_eqI [OF assms]
  by (simp add: plainGet_def fun_eq_iff split: option.splits)

lemma updObj_simps [simp]:
  "objs (updObj a f w) = (objs w)(a := f (objs w a))"
  "store (updObj a f w) = store w"
  "maps (updObj a f w) = maps w"
  "nextObj (updObj a f w) = nextObj w"
  "nextMap (updObj a f w) = nextMap w"
  "registry (updObj a f w) = registry w"
  "builtinChildIds (updObj a f w) = builtinChildIds w"
  "protoArray (updObj a f w) = protoArray w"
  "nextArr (updObj a f w) = nextArr w"
  "panels (updObj a f w) = panels w"
  "panelData (updObj a f w) = panelData w"
  "nextPanel (updObj a f w) = nextPanel w"
  by (simp_all add: updObj_def registry_def)

lemma updObj_lookup [simp]:
  "inheritedMember (updObj a f w) = inheritedMember w"
  "plainGet (updObj a f w) = plainGet w"
  by (rule inheritedMember_eqI plainGet_eqI; simp)+

lemma setElements_simps [simp]:
  "objs (setElements m w) = objs w"
  "registry (setElements m w) = m"
  "selectedId (store (setElements m w)) = selectedId (store w)"
  "selectedKey (store (setElements m w)) = selectedKey (store w)"
  "settingsPanel (store (setElements m w)) = settingsPanel (store w)"
  "elements (store (setElements m w)) = nextMap w"
  "nextObj (setElements m w) = nextObj w"
  "nextMap (setElements m w) = Suc (nextMap w)"
  "maps (setElements m w) = (maps w)(nextMap w := m)"
  "builtinChildIds (setElements m w) = builtinChildIds w"
  "protoArray (setElements m w) = protoArray w"
  "nextArr (setElements m w) = nextArr w"
  "panels (setElements m w) = panels w"
  "panelData (setElements m w) = panelData w"
  "nextPanel (setElements m w) = nextPanel w"
  by (simp_all add: setElements_def registry_def)

lemma setElements_lookup [simp]:
  "inheritedMember (setElements m w) = inheritedMember w"
  "plainGet (setElements m w) = plainGet w"
  by (rule inheritedMember_eqI plainGet_eqI; simp)+

lemma writeChildIds_simps [simp]:
  "store (writeChildIds r cs w) = store w"
  "maps (writeChildIds r cs w) = maps w"
  "nextObj (writeChildIds r cs w) = nextObj w"
  "nextMap (writeChildIds r cs w) = nextMap w"
  "registry (writeChildIds r cs w) = registry w"
  "panels (writeChildIds r cs w) = panels w"
  "panelData (writeChildIds r cs w) = panelData w"
  "nextPanel (writeChildIds r cs w) = nextPanel w"
  "elementId (objs (writeChildIds r cs w) a) = elementId (objs w a)"
  "parentId (objs (writeChildIds r cs w) a) = parentId (objs w a)"
  "index (objs (writeChildIds r cs w) a) = index (objs w a)"
  "key (objs (writeChildIds r cs w) a) = key (objs w a)"
  "readChildIds (writeChildIds r cs w) r = Def cs"
  by (auto simp add: writeChildIds_def registry_def readChildIds_def
      split: ref.splits)

lemma writeChildIds_childIds:
  "childIds (objs (writeChildIds r cs w) a) = (if r = Elem a then cs else childIds (objs w a))"
  by (auto simp add: writeChildIds_def split: ref.splits)

lemma assignFrom_simps [simp]:
  "store (assignFrom e r w) = store w"
  "maps (assignFrom e r w) = maps w"
  "nextObj (assignFrom e r w) = nextObj w"
  "nextMap (assignFrom e r w) = nextMap w"
  "registry (assignFrom e r w) = registry w"
  "builtinChildIds (assignFrom e r w) = builtinChildIds w"
  "protoArray (assignFrom e r w) = protoArray w"
  "nextArr (assignFrom e r w) = nextArr w"
  "panels (assignFrom e r w) = panels w"
  "panelData (assignFrom e r w) = panelData w"
  "nextPanel (assignFrom e r w) = nextPanel w"
  "a \<noteq> e \<Longrightarrow> objs (assignFrom e r w) a = objs w a"
  by (auto simp add: assignFrom_def split: ref.splits undef.splits)

lemma assignFrom_lookup [simp]:
  "inheritedMember (assignFrom e r w) = inheritedMember w"
  "plainGet (assignFrom e r w) = plainGet w"
  by (rule inheritedMember_eqI plainGet_eqI; simp)+

lemma newObject_simps [simp]:
  "objs (newObject w) = (objs w)(nextObj w := emptyObject)"
  "nextObj (newObject w) = Suc (nextObj w)"
  "store (newObject w) = store w"
  "maps (newObject w) = maps w"
  "nextMap (newObject w) = nextMap w"
  "registry (newObject w) = registry w"
  "builtinChildIds (newObject w) = builtinChildIds w"
  "protoArray (newObject w) = protoArray w"
  "nextArr (newObject w) = nextArr w"
  "panels (newObject w) = panels w"
  "panelData (newObject w) = panelData w"
  "nextPanel (newObject w) = nextPanel w"
  by (simp_all add: newObject_def registry_def)

lemma newObject_lookup [simp]:
  "inheritedMember (newObject w) = inheritedMember w"
  "plainGet (newObject w) = plainGet w"
  by (rule inheritedMember_eqI plainGet_eqI; simp)+

lemma Elem_simps [simp]:
  "readChildIds w (Elem a) = Def (childIds (objs w a))"
  "childIdsOrEmpty w (Elem a) = childIds (objs w a)"
  "writeChildIds (Elem a) cs w = updObj a (\<lambda>x. x\<lparr>childIds := cs\<rparr>) w"
  "assignFrom e (Elem s) w = updObj e (\<lambda>x. objectAssign x (objs w s)) w"
  by (simp_all add: readChildIds_def childIdsOrEmpty_def writeChildIds_def assignFrom_def)

lemma plainGet_own: "m k = Some r \<Longrightarrow> plainGet w m k = Some r"
  by (simp add: plainGet_def)

lemma plainGet_not_own:
  "m k = None \<Longrightarrow> plainGet w m k = map_option Builtin (inheritedMember w k)"
  by (simp add: plainGet_def)

lemma no_builtin_childIds:
  assumes "builtinChildIds w = (\<lambda>_. Undefined)"
  shows "inheritedMember w k =
     (if k \<in> set prototypeFunctionNames then Some (Fn k)
      else if k = ''__proto__'' then Some ObjectPrototype else None)"
    and "readChildIds w (Builtin b) = Undefined"
  using assms by (simp_all add: inheritedMember_def readChildIds_def)

lemma assignProp_self [simp]: "assignProp x x = x"
  by (cases x) simp_all

lemma objectAssign_self [simp]: "objectAssign x x = x"
  by (simp add: objectAssign_def)

lemma updObj_same [simp]: "updObj e (\<lambda>x. x) w = w"
  by (simp add: updObj_def)

lemma threeElements_facts:
  "registry threeElements = [''root'' \<mapsto> Elem 0]"
  "nextObj threeElements = 4"
  "nextMap threeElements = 1"
  "elements (store threeElements) = 0"
  "maps threeElements = (\<lambda>_. Map.empty)(0 := [''root'' \<mapsto> Elem 0])"
  "selectedId (store threeElements) = Def None"
  "selectedKey (store threeElements) = Def None"
  "builtinChildIds threeElements = (\<lambda>_. Undefined)"
  "objs threeElements =
     (\<lambda>_. emptyObject)
       (0 := rootElement,
        1 := \<lparr>elementId = Def ''x'', parentId = Def None, childIds = [], index = Undefined,
               key = Def None\<rparr>,
        2 := \<lparr>elementId = Def ''b'', parentId = Def None, childIds = [], index = Undefined,
               key = Def None\<rparr>,
        3 := \<lparr>elementId = Def ''x'', parentId = Def None, childIds = [], index = Undefined,
               key = Def None\<rparr>)"
  by (simp_all add: threeElements_def createElement_def newEditableElement_def
      createEditor_def registry_def eval_nat_numeral)

lemma xAppended_facts:
  "registry xAppended = [''root'' \<mapsto> Elem 0, ''x'' \<mapsto> Elem 1]"
  "nextObj xAppended = 4"
  "nextMap xAppended = 2"
  "elements (store xAppended) = 1"
  "maps xAppended =
     (\<lambda>_. Map.empty)(0 := [''root'' \<mapsto> Elem 0], 1 := [''x'' \<mapsto> Elem 1, ''root'' \<mapsto> Elem 0])"
  "selectedId (store xAppended) = Def None"
  "selectedKey (store xAppended) = Def None"
  "builtinChildIds xAppended = (\<lambda>_. Undefined)"
  "objs xAppended =
     (\<lambda>_. emptyObject)
       (0 := rootElement\<lparr>childIds := [Def ''x'']\<rparr>,
        1 := \<lparr>elementId = Def ''x'', parentId = Def (Some ''root''), childIds = [],
               index = Def ''0'', key = Def None\<rparr>,
        2 := \<lparr>elementId = Def ''b'', parentId = Def None, childIds = [], index = Undefined,
               key = Def None\<rparr>,
        3 := \<lparr>elementId = Def ''x'', parentId = Def None, childIds = [], index = Undefined,
               key = Def None\<rparr>)"
  by (auto simp add: xAppended_def appendElement_def appendWithParent_def Let_def plainGet_def
      no_builtin_childIds(1) [OF threeElements_facts(8)] prototypeFunctionNames_def
      threeElements_facts rootElement_record numberToString_def natToString_small digitChar_def)

lemma bAppended_facts:
  "registry bAppended = [''root'' \<mapsto> Elem 0, ''x'' \<mapsto> Elem 1, ''b'' \<mapsto> Elem 2]"
  "nextObj bAppended = 4"
  "builtinChildIds bAppended = (\<lambda>_. Undefined)"
  "objs bAppended =
     (\<lambda>_. emptyObject)
       (0 := rootElement\<lparr>childIds := [Def ''x'', Def ''b'']\<rparr>,
        1 := \<lparr>elementId = Def ''x'', parentId = Def (Some ''root''), childIds = [],
               index = Def ''0'', key = Def None\<rparr>,
        2 := \<lparr>elementId = Def ''b'', parentId = Def (Some ''root''), childIds = [],
               index = Def ''1'', key = Def None\<rparr>,
        3 := \<lparr>elementId = Def ''x'', parentId = Def None, childIds = [], index = Undefined,
               key = Def None\<rparr>)"
  by (auto simp add: bAppended_def appendElement_def appendWithParent_def Let_def plainGet_def
      no_builtin_childIds(1) [OF xAppended_facts(8)] prototypeFunctionNames_def
      xAppended_facts rootElement_record numberToString_def natToString_small digitChar_def)

lemma childFirst_facts:
  "registry childFirst = [''root'' \<mapsto> Elem 0, ''x'' \<mapsto> Elem 1, ''b'' \<mapsto> Elem 4]"
  "nextObj childFirst = 5"
  "builtinChildIds childFirst = (\<lambda>_. Undefined)"
  "objs childFirst =
     (\<lambda>_. emptyObject)
       (0 := rootElement,
        1 := \<lparr>elementId = Def ''x'', parentId = Def (Some ''b''), childIds = [],
               index = Def ''0'', key = Def None\<rparr>,
        2 := \<lparr>elementId = Def ''b'', parentId = Def None, childIds = [], index = Undefined,
               key = Def None\<rparr>,
        3 := \<lparr>elementId = Def ''x'', parentId = Def None, childIds = [], index = Undefined,
               key = Def None\<rparr>,
        4 := emptyObject\<lparr>childIds := [Def ''x'']\<rparr>)"
  by (auto simp add: childFirst_def appendElement_def appendWithParent_def Let_def plainGet_def
      no_builtin_childIds(1) [OF threeElements_facts(8)] prototypeFunctionNames_def
      threeElements_facts rootElement_record emptyObject_def numberToString_def natToString_small digitChar_def)

section \<open>Appending an element\<close>

lemma readChildIds_frame:
  assumes "builtinChildIds w' = builtinChildIds w"
    and "\<And>a. r = Elem a \<Longrightarrow> childIds (objs w' a) = childIds (objs w a)"
  shows "readChildIds w' r = readChildIds w r" and "childIdsOrEmpty w' r = childIdsOrEmpty w r"
proof -
  show "readChildIds w' r = readChildIds w r"
  proof (cases r)
    case (Elem a)
    then show ?thesis using assms(2) [of a] by simp
  next
    case (Builtin b)
    then show ?thesis by (simp add: readChildIds_def assms(1) split: undef.splits)
  qed
  then show "childIdsOrEmpty w' r = childIdsOrEmpty w r"
    by (simp add: childIdsOrEmpty_def)
qed

lemma childIdsOrEmpty_written [simp]:
  "childIdsOrEmpty (writeChildIds r cs w) r = cs"
  by (simp add: childIdsOrEmpty_def)

lemma appendWithParent_steps:
  assumes found: "plainGet w (registry w) p = Some pa"
    and w3: "w3 = writeChildIds pa (childIdsOrEmpty w pa @ [elementId (objs w e)])
                 (updObj e (\<lambda>x. x\<lparr>parentId := Def (Some p)\<rparr>) w)"
    and w4: "w4 = (case plainGet w3 (registry w) (propKey (elementId (objs w e))) of
                  None \<Rightarrow> w3
                | Some s \<Rightarrow> assignFrom e s w3)"
  shows "appendWithParent e p w =
     setElements (((registry w)(propKey (elementId (objs w4 e)) \<mapsto> Elem e))(p \<mapsto> pa))
       (updObj e (\<lambda>x. x\<lparr>index :=
           Def (numberToString (int (length (childIdsOrEmpty w4 pa)) - 1))\<rparr>) w4)"
proof -
  let ?w1 = "updObj e (\<lambda>x. x\<lparr>parentId := Def (Some p)\<rparr>) w"
  have old: "childIdsOrEmpty ?w1 pa = childIdsOrEmpty w pa"
    by (rule readChildIds_frame) simp_all
  have w3': "writeChildIds pa (childIdsOrEmpty ?w1 pa @ [elementId (objs ?w1 e)]) ?w1 = w3"
    unfolding w3 old by simp
  have id3: "elementId (objs w3 e) = elementId (objs w e)"
    unfolding w3 by simp
  have w4': "(case plainGet w3 (registry ?w1) (propKey (elementId (objs w3 e))) of
                  None \<Rightarrow> w3
                | Some s \<Rightarrow> assignFrom e s w3) = w4"
    unfolding w4 id3 by simp
  have f: "plainGet ?w1 (registry ?w1) p = Some pa"
    using found by simp
  show ?thesis
    unfolding appendWithParent_def Let_def f option.case prod.case w3' w4'
    by simp
qed

lemma plainGet_Elem: "plainGet w m k = Some (Elem s) \<longleftrightarrow> m k = Some (Elem s)"
  by (auto simp add: plainGet_def split: option.splits)

lemma assignFrom_fields:
  "parentId (objs (assignFrom e s w) e) =
     (case s of Elem a \<Rightarrow> assignProp (parentId (objs w e)) (parentId (objs w a))
      | Builtin b \<Rightarrow> parentId (objs w e))"
  "elementId (objs (assignFrom e s w) e) =
     (case s of Elem a \<Rightarrow> assignProp (elementId (objs w e)) (elementId (objs w a))
      | Builtin b \<Rightarrow> elementId (objs w e))"
  by (auto simp add: assignFrom_def objectAssign_def split: ref.splits undef.splits)

text \<open>
  C1 (amended).  Let \<open>p\<close> be a non-empty parent id under which the lookup
  \<open>elements[p]\<close> finds the object \<open>pa\<close>, let \<open>i\<close> be the id of \<open>e\<close> when
  \<open>appendElement(e, p)\<close> is called, and let \<open>stale\<close> be what \<open>elements[i]\<close>
  finds then.  After the call the entry for \<open>p\<close> is still \<open>pa\<close>, and \<open>e.index\<close> is
  the decimal string of the length of the parent's \<open>childIds\<close> minus 1.  The parent's
  \<open>childIds\<close> is its previous sequence with \<open>i\<close> appended at the end, so \<open>i\<close>
  occurs once more than before, and exactly once if and only if it was not a child
  already; this holds unless the parent is \<open>e\<close> itself and \<open>stale\<close> is another
  object, whose \<open>childIds\<close> the merge then copies over.  \<open>e.parentId\<close> is \<open>p\<close>
  unless \<open>stale\<close> is another element object with a \<open>parentId\<close> of its own
  different from \<open>p\<close>, and \<open>e\<close> keeps its id unless \<open>stale\<close> is an object with a
  different id of its own: a placeholder, which has neither, changes neither.
\<close>

theorem appendElement_links_child:
  assumes "p \<noteq> []"
    and "getElementById p w = Some pa"
  shows "let w' = appendElement e (Some p) w;
             i = elementId (objs w e);
             old = childIdsOrEmpty w pa;
             stale = getElementById (propKey i) w
         in getElementById p w' = Some pa
            \<and> index (objs w' e)
                  = Def (numberToString (int (length (childIdsOrEmpty w' pa)) - 1))
            \<and> ((pa = Elem e \<longrightarrow> stale = None \<or> stale = Some (Elem e)) \<longrightarrow>
                  readChildIds w' pa = Def (old @ [i])
                  \<and> count_list (childIdsOrEmpty w' pa) i = Suc (count_list old i)
                  \<and> (count_list (childIdsOrEmpty w' pa) i = 1 \<longleftrightarrow> i \<notin> set old))
            \<and> ((\<forall>s. stale = Some (Elem s) \<longrightarrow> s \<noteq> e \<longrightarrow>
                    parentId (objs w s) = Undefined \<or> parentId (objs w s) = Def (Some p))
                 \<longrightarrow> parentId (objs w' e) = Def (Some p))
            \<and> ((\<forall>s. stale = Some (Elem s) \<longrightarrow>
                    elementId (objs w s) = Undefined \<or> elementId (objs w s) = i)
                 \<longrightarrow> elementId (objs w' e) = i)"
proof -
  define i where "i = elementId (objs w e)"
  define old where "old = childIdsOrEmpty w pa"
  define w3 where "w3 = writeChildIds pa (old @ [i])
                 (updObj e (\<lambda>x. x\<lparr>parentId := Def (Some p)\<rparr>) w)"
  define st where "st = plainGet w3 (registry w) (propKey i)"
  define w4 where "w4 = (case st of None \<Rightarrow> w3 | Some s \<Rightarrow> assignFrom e s w3)"
  define w' where "w' = appendElement e (Some p) w"
  have found: "plainGet w (registry w) p = Some pa"
    using assms(2) by (simp add: getElementById_def)
  have w': "w' = setElements (((registry w)(propKey (elementId (objs w4 e)) \<mapsto> Elem e))(p \<mapsto> pa))
       (updObj e (\<lambda>x. x\<lparr>index :=
           Def (numberToString (int (length (childIdsOrEmpty w4 pa)) - 1))\<rparr>) w4)"
  proof -
    have w3eq: "w3 = writeChildIds pa (childIdsOrEmpty w pa @ [elementId (objs w e)])
                 (updObj e (\<lambda>x. x\<lparr>parentId := Def (Some p)\<rparr>) w)"
      by (simp add: w3_def old_def i_def)
    have w4eq: "w4 = (case plainGet w3 (registry w) (propKey (elementId (objs w e))) of
                  None \<Rightarrow> w3
                | Some s \<Rightarrow> assignFrom e s w3)"
      by (simp add: w4_def st_def i_def)
    show ?thesis
      unfolding w'_def using assms(1) appendWithParent_steps [OF found w3eq w4eq]
      by (simp add: appendElement_def)
  qed
  have rd: "readChildIds w' pa = readChildIds w4 pa"
    and ro: "childIdsOrEmpty w' pa = childIdsOrEmpty w4 pa"
    unfolding w' by (rule readChildIds_frame; simp)+
  have c1: "getElementById p w' = Some pa"
    unfolding getElementById_def by (rule plainGet_own) (simp add: w')
  have c2: "index (objs w' e) = Def (numberToString (int (length (childIdsOrEmpty w' pa)) - 1))"
    unfolding ro by (simp add: w')
  have r3: "readChildIds w3 pa = Def (old @ [i])"
    by (simp add: w3_def)
  have c3: "readChildIds w' pa = Def (old @ [i])"
    if h: "pa = Elem e \<longrightarrow>
       getElementById (propKey i) w = None \<or> getElementById (propKey i) w = Some (Elem e)"
  proof (cases "pa = Elem e")
    case True
    have "plainGet w3 = plainGet w"
      by (rule plainGet_eqI) (simp_all add: w3_def True)
    then have "st = None \<or> st = Some (Elem e)"
      using h True by (simp add: st_def getElementById_def)
    then have "w4 = w3"
      by (auto simp add: w4_def)
    then show ?thesis
      using r3 rd by simp
  next
    case False
    have "readChildIds w4 pa = readChildIds w3 pa"
    proof (cases st)
      case None
      then show ?thesis by (simp add: w4_def)
    next
      case (Some s)
      have "readChildIds (assignFrom e s w3) pa = readChildIds w3 pa"
        using False by (intro readChildIds_frame(1)) auto
      then show ?thesis by (simp add: w4_def Some)
    qed
    then show ?thesis
      using r3 rd by simp
  qed
  have p3: "parentId (objs w3 e) = Def (Some p)" and i3: "elementId (objs w3 e) = i"
    by (simp_all add: w3_def i_def)
  have other3: "parentId (objs w3 s) = parentId (objs w s)" if "s \<noteq> e" for s
    using that by (simp add: w3_def)
  have id3: "elementId (objs w3 s) = elementId (objs w s)" for s
    by (simp add: w3_def)
  have stE: "getElementById (propKey i) w = Some (Elem s)" if "st = Some (Elem s)" for s
    using that by (simp add: st_def getElementById_def plainGet_Elem)
  have c4: "parentId (objs w' e) = Def (Some p)"
    if h: "\<forall>s. getElementById (propKey i) w = Some (Elem s) \<longrightarrow> s \<noteq> e \<longrightarrow>
             parentId (objs w s) = Undefined \<or> parentId (objs w s) = Def (Some p)"
  proof -
    have "parentId (objs w4 e) = Def (Some p)"
    proof (cases st)
      case None
      then show ?thesis by (simp add: w4_def p3)
    next
      case (Some r)
      show ?thesis
      proof (cases r)
        case (Elem s)
        show ?thesis
        proof (cases "s = e")
          case True
          then show ?thesis by (simp add: w4_def Some Elem p3)
        next
          case False
          then have "parentId (objs w s) = Undefined \<or> parentId (objs w s) = Def (Some p)"
            using h stE Some Elem by blast
          then show ?thesis
            using False by (auto simp add: w4_def Some Elem assignFrom_fields p3 other3
                simp del: Elem_simps)
        qed
      next
        case (Builtin b)
        then show ?thesis by (simp add: w4_def Some assignFrom_fields p3)
      qed
    qed
    then show ?thesis by (simp add: w')
  qed
  have c5: "elementId (objs w4 e) = i"
    if h: "\<forall>s. getElementById (propKey i) w = Some (Elem s) \<longrightarrow>
             elementId (objs w s) = Undefined \<or> elementId (objs w s) = i"
  proof (cases st)
    case None
    then show ?thesis by (simp add: w4_def i3)
  next
    case (Some r)
    show ?thesis
    proof (cases r)
      case (Elem s)
      then have "elementId (objs w s) = Undefined \<or> elementId (objs w s) = i"
        using h stE Some by blast
      moreover have "elementId (objs w4 e) = assignProp i (elementId (objs w s))"
        by (simp add: w4_def Some Elem assignFrom_fields id3 i_def [symmetric]
            del: Elem_simps)
      ultimately show ?thesis
        by auto
    next
      case (Builtin b)
      then show ?thesis by (simp add: w4_def Some assignFrom_fields i3)
    qed
  qed
  have c5': "elementId (objs w' e) = elementId (objs w4 e)"
    by (simp add: w')
  have cnt: "count_list (old @ [i]) i = Suc (count_list old i)"
    "count_list (old @ [i]) i = 1 \<longleftrightarrow> i \<notin> set old"
    by (simp_all add: count_list_0_iff)
  have ro': "readChildIds w' pa = Def cs \<Longrightarrow> childIdsOrEmpty w' pa = cs" for cs
    by (simp add: childIdsOrEmpty_def)
  show ?thesis
    unfolding Let_def w'_def [symmetric] i_def [symmetric] old_def [symmetric]
    using c1 c2 c3 c4 c5 c5' cnt ro' by metis
qed
theorem appendElement_links_child_witness:
  "getElementById ''root'' childFirst = Some (Elem 0)
   \<and> getElementById ''b'' childFirst = Some (Elem 4)
   \<and> elementId (objs childFirst 4) = Undefined
   \<and> parentId (objs childFirst 4) = Undefined
   \<and> getElementById ''root'' (appendElement 2 (Some ''root'') childFirst) = Some (Elem 0)
   \<and> readChildIds (appendElement 2 (Some ''root'') childFirst) (Elem 0) = Def [Def ''b'']
   \<and> parentId (objs (appendElement 2 (Some ''root'') childFirst) 2) = Def (Some ''root'')
   \<and> elementId (objs (appendElement 2 (Some ''root'') childFirst) 2) = Def ''b''
   \<and> index (objs (appendElement 2 (Some ''root'') childFirst) 2) = Def ''0''"
proof -
  have h1: "''root'' \<noteq> []" by simp
  have h2: "getElementById ''root'' childFirst = Some (Elem 0)"
    by (simp add: getElementById_def plainGet_def childFirst_facts)
  have h3: "getElementById ''b'' childFirst = Some (Elem 4)"
    by (simp add: getElementById_def plainGet_def childFirst_facts)
  have h4: "objs childFirst 4 = emptyObject\<lparr>childIds := [Def ''x'']\<rparr>"
    "elementId (objs childFirst 2) = Def ''b''"
    "childIds (objs childFirst 0) = []"
    by (simp_all add: childFirst_facts rootElement_record eval_nat_numeral)
  show ?thesis
    using appendElement_links_child [OF h1 h2, of 2, unfolded Let_def] h2 h3 h4
    by (simp add: emptyObject_def numberToString_def natToString_small digitChar_def)
qed

text \<open>
  C1 as stated fails.  Appending \<open>x\<close> under \<open>root\<close> a second time leaves its id twice in
  the \<open>childIds\<close> of \<open>root\<close>: nothing in \<open>appendElement\<close> tests whether the id is a
  child already.  And when the registry already holds another element object under the id
  \<open>x\<close> with parent \<open>root\<close>, appending the new object for \<open>x\<close> under the registered
  parent \<open>b\<close> leaves its \<open>parentId\<close> at \<open>root\<close>: the merge of the registered entry
  overwrites the \<open>parentId\<close> just written.
\<close>

theorem appendElement_links_child_counterexample:
  "getElementById ''root'' xAppended = Some (Elem 0)
   \<and> count_list (childIdsOrEmpty (appendElement 1 (Some ''root'') xAppended) (Elem 0)) (Def ''x'') = 2
   \<and> getElementById ''b'' bAppended = Some (Elem 2)
   \<and> elementId (objs bAppended 3) = Def ''x''
   \<and> parentId (objs (appendElement 3 (Some ''b'') bAppended) 3) = Def (Some ''root'')"
proof -
  have x: "plainGet xAppended (registry xAppended) ''root'' = Some (Elem 0)"
    "plainGet xAppended (registry xAppended) ''x'' = Some (Elem 1)"
    by (simp_all add: plainGet_def xAppended_facts)
  have b: "plainGet bAppended (registry bAppended) ''b'' = Some (Elem 2)"
    "plainGet bAppended (registry bAppended) ''x'' = Some (Elem 1)"
    by (simp_all add: plainGet_def bAppended_facts)
  have "count_list (childIdsOrEmpty (appendElement 1 (Some ''root'') xAppended) (Elem 0)) (Def ''x'') = 2"
    by (simp add: appendElement_def appendWithParent_def Let_def x xAppended_facts(9)
        rootElement_record objectAssign_def)
  moreover have "parentId (objs (appendElement 3 (Some ''b'') bAppended) 3) = Def (Some ''root'')"
    by (simp add: appendElement_def appendWithParent_def Let_def b bAppended_facts(4)
        rootElement_record objectAssign_def)
  moreover have "elementId (objs bAppended 3) = Def ''x''"
    by (simp add: bAppended_facts)
  ultimately show ?thesis
    using x b by (simp add: getElementById_def)
qed

section \<open>Removing an element\<close>

lemma appendWithParent_unfold:
  assumes w1: "w1 = updObj e (\<lambda>x. x\<lparr>parentId := Def (Some q)\<rparr>) w"
    and pa: "(case plainGet w (registry w) q of
                Some r \<Rightarrow> (r, w1)
              | None \<Rightarrow> (Elem (nextObj w), newObject w1)) = (pa, w2)"
    and w3: "w3 = writeChildIds pa (childIdsOrEmpty w2 pa @ [elementId (objs w2 e)]) w2"
    and w4: "w4 = (case plainGet w3 (registry w) (propKey (elementId (objs w3 e))) of
                  None \<Rightarrow> w3
                | Some s \<Rightarrow> assignFrom e s w3)"
  shows "appendWithParent e q w =
     setElements (((registry w)(propKey (elementId (objs w4 e)) \<mapsto> Elem e))(q \<mapsto> pa))
       (updObj e (\<lambda>x. x\<lparr>index :=
           Def (numberToString (int (length (childIdsOrEmpty w4 pa)) - 1))\<rparr>) w4)"
proof -
  have f: "(case plainGet w1 (registry w1) q of
                Some r \<Rightarrow> (r, w1)
              | None \<Rightarrow> (Elem (nextObj w1), newObject w1)) = (pa, w2)"
    using pa by (simp add: w1 split: option.splits)
  have r1: "registry w1 = registry w"
    by (simp add: w1)
  show ?thesis
    unfolding appendWithParent_def Let_def w1 [symmetric]
    unfolding f prod.case
    unfolding w3 [symmetric] r1
    unfolding w4 [symmetric]
    by simp
qed

lemma merge_keeps_id:
  assumes "\<forall>s. st = Some (Elem s) \<longrightarrow>
      elementId (objs u s) = Undefined \<or> elementId (objs u s) = elementId (objs u e)"
  shows "elementId (objs (case st of None \<Rightarrow> u | Some s \<Rightarrow> assignFrom e s u) e)
     = elementId (objs u e)"
proof (cases st)
  case None
  then show ?thesis by simp
next
  case (Some r)
  show ?thesis
  proof (cases r)
    case (Elem s)
    then have "elementId (objs u s) = Undefined \<or> elementId (objs u s) = elementId (objs u e)"
      using assms Some by blast
    then show ?thesis
      by (auto simp add: Some Elem assignFrom_fields simp del: Elem_simps)
  next
    case (Builtin b)
    then show ?thesis by (simp add: Some assignFrom_fields)
  qed
qed

lemma appendWithParent_result:
  obtains pa cs where "registry (appendWithParent e q w) q = Some pa"
    and "readChildIds (appendWithParent e q w) pa = Def cs"
    and "e < nextObj w \<Longrightarrow>
         \<forall>s. registry w (propKey (elementId (objs w e))) = Some (Elem s) \<longrightarrow>
           elementId (objs w s) = Undefined \<or> elementId (objs w s) = elementId (objs w e) \<Longrightarrow>
         elementId (objs (appendWithParent e q w) e) = elementId (objs w e)"
    and "\<And>a. a \<noteq> e \<Longrightarrow> a < nextObj w \<Longrightarrow>
         elementId (objs (appendWithParent e q w) a) = elementId (objs w a)"
proof -
  define w1 where "w1 = updObj e (\<lambda>x. x\<lparr>parentId := Def (Some q)\<rparr>) w"
  obtain pa w2 where pa: "(case plainGet w (registry w) q of
                Some r \<Rightarrow> (r, w1)
              | None \<Rightarrow> (Elem (nextObj w), newObject w1)) = (pa, w2)"
    by (cases "plainGet w (registry w) q") simp_all
  define w3 where "w3 = writeChildIds pa (childIdsOrEmpty w2 pa @ [elementId (objs w2 e)]) w2"
  define st where "st = plainGet w3 (registry w) (propKey (elementId (objs w3 e)))"
  define w4 where "w4 = (case st of None \<Rightarrow> w3 | Some s \<Rightarrow> assignFrom e s w3)"
  let ?u = "appendWithParent e q w"
  have u: "?u = setElements (((registry w)(propKey (elementId (objs w4 e)) \<mapsto> Elem e))(q \<mapsto> pa))
       (updObj e (\<lambda>x. x\<lparr>index :=
           Def (numberToString (int (length (childIdsOrEmpty w4 pa)) - 1))\<rparr>) w4)"
    by (rule appendWithParent_unfold [OF w1_def pa w3_def]) (simp add: w4_def st_def)
  have a: "registry ?u q = Some pa"
    by (simp add: u)
  have "readChildIds ?u pa = readChildIds w4 pa"
    unfolding u by (rule readChildIds_frame; simp)
  moreover have "\<exists>cs. readChildIds w4 pa = Def cs"
  proof (cases pa)
    case (Elem a)
    then show ?thesis by simp
  next
    case (Builtin b)
    have "readChildIds w4 pa = readChildIds w3 pa"
    proof (cases st)
      case None
      then show ?thesis by (simp add: w4_def)
    next
      case (Some s)
      have "readChildIds (assignFrom e s w3) pa = readChildIds w3 pa"
        by (rule readChildIds_frame) (simp_all add: Builtin)
      then show ?thesis by (simp add: w4_def Some)
    qed
    then show ?thesis by (simp add: w3_def)
  qed
  ultimately obtain cs where b: "readChildIds ?u pa = Def cs"
    by auto
  have w2: "w2 = w1 \<or> w2 = newObject w1"
    using pa by (auto split: option.splits)
  have id2: "elementId (objs w2 a) = elementId (objs w a)" if "a < nextObj w" for a
    using w2 that by (auto simp add: w1_def)
  have id2': "elementId (objs w2 a) = Undefined \<or> elementId (objs w2 a) = elementId (objs w a)"
    for a
    using w2 by (auto simp add: w1_def emptyObject_def)
  have id3: "elementId (objs w3 a) = elementId (objs w2 a)" for a
    by (simp add: w3_def)
  have c: "elementId (objs ?u e) = elementId (objs w e)"
    if e: "e < nextObj w"
      and h: "\<forall>s. registry w (propKey (elementId (objs w e))) = Some (Elem s) \<longrightarrow>
           elementId (objs w s) = Undefined \<or> elementId (objs w s) = elementId (objs w e)"
  proof -
    have "\<forall>s. st = Some (Elem s) \<longrightarrow>
        elementId (objs w3 s) = Undefined \<or> elementId (objs w3 s) = elementId (objs w3 e)"
      using h id2' id2 [OF e] unfolding st_def plainGet_Elem id3 by metis
    then have "elementId (objs w4 e) = elementId (objs w3 e)"
      unfolding w4_def by (rule merge_keeps_id)
    then show ?thesis
      using id2 [OF e] by (simp add: u id3)
  qed
  have d: "elementId (objs ?u a) = elementId (objs w a)" if "a \<noteq> e" "a < nextObj w" for a
  proof -
    have "objs w4 a = objs w3 a"
      using that by (cases st) (simp_all add: w4_def)
    then show ?thesis
      using that id2 by (simp add: u id3)
  qed
  from a b c d show ?thesis
    by (rule that)
qed

lemma removeWithParent_found:
  assumes "plainGet u (registry u) q = Some pa"
    and "readChildIds u pa = Def cs"
  shows "removeWithParent e q u =
     (None, setElements ((registry u)(propKey (elementId (objs u e)) := None))
        (writeChildIds pa (filter (\<lambda>c. c \<noteq> elementId (objs u e)) cs)
           (updObj e (\<lambda>x. x\<lparr>parentId := Def None\<rparr>) u)))"
proof -
  have "readChildIds (updObj e (\<lambda>x. x\<lparr>parentId := Def None\<rparr>) u) pa = readChildIds u pa"
    by (rule readChildIds_frame) simp_all
  then show ?thesis
    using assms by (simp add: removeWithParent_def Let_def)
qed

lemma removeTopLevel_effect:
  "objs (removeTopLevel e u) = objs u"
  "registry (removeTopLevel e u) = (registry u)(propKey (elementId (objs u e)) := None)"
  "store (removeTopLevel e u) = store u"
  by (simp_all add: removeTopLevel_def registry_def)

lemma appendTopLevel_effect:
  "a \<noteq> e \<Longrightarrow> objs (appendTopLevel e w) a = objs w a"
  "\<forall>s. registry w (propKey (elementId (objs w e))) = Some (Elem s) \<longrightarrow>
         elementId (objs w s) = Undefined \<or> elementId (objs w s) = elementId (objs w e) \<Longrightarrow>
     elementId (objs (appendTopLevel e w) e) = elementId (objs w e)"
proof -
  show "a \<noteq> e \<Longrightarrow> objs (appendTopLevel e w) a = objs w a"
    by (simp add: appendTopLevel_def Let_def split: option.splits)
  assume "\<forall>s. registry w (propKey (elementId (objs w e))) = Some (Elem s) \<longrightarrow>
         elementId (objs w s) = Undefined \<or> elementId (objs w s) = elementId (objs w e)"
  then have "\<forall>s. plainGet w (registry w) (propKey (elementId (objs w e))) = Some (Elem s) \<longrightarrow>
         elementId (objs w s) = Undefined \<or> elementId (objs w s) = elementId (objs w e)"
    by (simp add: plainGet_Elem)
  then have "elementId (objs (case plainGet w (registry w) (propKey (elementId (objs w e))) of
       None \<Rightarrow> w | Some s \<Rightarrow> assignFrom e s w) e) = elementId (objs w e)"
    by (rule merge_keeps_id)
  then show "elementId (objs (appendTopLevel e w) e) = elementId (objs w e)"
    by (simp add: appendTopLevel_def Let_def)
qed

text \<open>
  C2.  Let \<open>w'\<close> be the editor after \<open>appendElement(e, p)\<close> followed by
  \<open>removeElement(e, p)\<close>.  The removal does not throw, \<open>e.id\<close> is not a key of
  \<open>elements\<close> (so that the lookup \<open>elements[e.id]\<close> finds only what every plain
  object inherits under that name), and for a parent id \<open>p\<close> (a non-empty string)
  \<open>e.id\<close> is not among the \<open>childIds\<close> of the entry for \<open>p\<close>.  The id is the one
  the element had before, as long as the element is an existing object and the registry
  holds under that id only objects with that id or with none.  For \<open>p\<close> null or empty no
  parent is involved: no object other than the element is changed.
\<close>

theorem append_remove_round_trip:
  "let res = removeElement e p (appendElement e p w);
       w' = snd res;
       i = elementId (objs w' e)
   in fst res = None
      \<and> registry w' (propKey i) = None
      \<and> getElementById (propKey i) w' = map_option Builtin (inheritedMember w' (propKey i))
      \<and> (truthy p \<longrightarrow>
            (\<forall>pa. registry w' (the p) = Some pa \<longrightarrow>
               (\<exists>cs. readChildIds w' pa = Def cs \<and> i \<notin> set cs)))
      \<and> (e < nextObj w \<longrightarrow>
           (\<forall>s. getElementById (propKey (elementId (objs w e))) w = Some (Elem s) \<longrightarrow>
              elementId (objs w s) = Undefined \<or> elementId (objs w s) = elementId (objs w e)) \<longrightarrow>
           i = elementId (objs w e))
      \<and> (\<not> truthy p \<longrightarrow> (\<forall>a. a \<noteq> e \<longrightarrow> objs w' a = objs w a))"
proof (cases "truthy p")
  case True
  define q where "q = the p"
  define u where "u = appendWithParent e q w"
  obtain pa cs where pa: "registry u q = Some pa" and cs: "readChildIds u pa = Def cs"
    and same: "e < nextObj w \<Longrightarrow>
         \<forall>s. registry w (propKey (elementId (objs w e))) = Some (Elem s) \<longrightarrow>
           elementId (objs w s) = Undefined \<or> elementId (objs w s) = elementId (objs w e) \<Longrightarrow>
         elementId (objs u e) = elementId (objs w e)"
    unfolding u_def by (rule appendWithParent_result [of e q w]) blast
  define i where "i = elementId (objs u e)"
  define v where "v = writeChildIds pa (filter (\<lambda>c. c \<noteq> i) cs)
           (updObj e (\<lambda>x. x\<lparr>parentId := Def None\<rparr>) u)"
  define w' where "w' = setElements ((registry u)(propKey i := None)) v"
  have "plainGet u (registry u) q = Some pa"
    using pa by (rule plainGet_own)
  then have "removeWithParent e q u = (None, w')"
    unfolding w'_def v_def i_def using cs by (rule removeWithParent_found)
  then have res: "removeElement e p (appendElement e p w) = (None, w')"
    using True by (simp add: removeElement_def appendElement_def u_def q_def)
  have i: "elementId (objs w' e) = i"
    by (simp add: w'_def v_def i_def)
  have reg: "registry w' = (registry u)(propKey i := None)"
    by (simp add: w'_def)
  have "readChildIds w' pa = readChildIds v pa"
    unfolding w'_def by (rule readChildIds_frame) simp_all
  then have rd: "readChildIds w' pa = Def (filter (\<lambda>c. c \<noteq> i) cs)"
    by (simp add: v_def)
  have child: "\<exists>cs. readChildIds w' pa' = Def cs \<and> i \<notin> set cs"
    if "registry w' q = Some pa'" for pa'
  proof -
    from that have "pa' = pa"
      using pa by (simp add: reg split: if_splits)
    then show ?thesis
      using rd by simp
  qed
  have same': "i = elementId (objs w e)"
    if "e < nextObj w"
      and "\<forall>s. getElementById (propKey (elementId (objs w e))) w = Some (Elem s) \<longrightarrow>
              elementId (objs w s) = Undefined \<or> elementId (objs w s) = elementId (objs w e)"
    unfolding i_def using that by (intro same) (simp_all add: getElementById_def plainGet_Elem)
  have look: "getElementById (propKey i) w' = map_option Builtin (inheritedMember w' (propKey i))"
    unfolding getElementById_def by (rule plainGet_not_own) (simp add: reg)
  show ?thesis
    unfolding Let_def res snd_conv fst_conv i q_def [symmetric]
    using True child same' look by (simp add: reg)
next
  case False
  define u where "u = appendTopLevel e w"
  define w' where "w' = removeTopLevel e u"
  have res: "removeElement e p (appendElement e p w) = (None, w')"
    using False by (simp add: removeElement_def appendElement_def u_def w'_def)
  have i: "elementId (objs w' e) = elementId (objs u e)"
    by (simp add: w'_def removeTopLevel_effect)
  have reg: "registry w' (propKey (elementId (objs u e))) = None"
    by (simp add: w'_def removeTopLevel_effect)
  have same: "elementId (objs u e) = elementId (objs w e)"
    if "\<forall>s. getElementById (propKey (elementId (objs w e))) w = Some (Elem s) \<longrightarrow>
              elementId (objs w s) = Undefined \<or> elementId (objs w s) = elementId (objs w e)"
    unfolding u_def using that
    by (intro appendTopLevel_effect(2)) (simp add: getElementById_def plainGet_Elem)
  have frame: "objs w' a = objs w a" if "a \<noteq> e" for a
    using that by (simp add: w'_def u_def removeTopLevel_effect appendTopLevel_effect(1))
  have look: "getElementById (propKey (elementId (objs u e))) w'
      = map_option Builtin (inheritedMember w' (propKey (elementId (objs u e))))"
    unfolding getElementById_def by (rule plainGet_not_own) (rule reg)
  show ?thesis
    unfolding Let_def res snd_conv fst_conv i
    using False reg same frame look by simp
qed

theorem append_remove_round_trip_witness:
  "fst (removeElement 1 (Some ''root'') xAppended) = None
   \<and> registry (snd (removeElement 1 (Some ''root'') xAppended)) ''x'' = None
   \<and> getElementById ''x'' (snd (removeElement 1 (Some ''root'') xAppended)) = None
   \<and> registry (snd (removeElement 1 (Some ''root'') xAppended)) ''root'' = Some (Elem 0)
   \<and> Def ''x'' \<notin> set (childIds (objs (snd (removeElement 1 (Some ''root'') xAppended)) 0))"
proof -
  let ?w' = "snd (removeElement 1 (Some ''root'') xAppended)"
  note t = append_remove_round_trip [of 1 "Some ''root''" threeElements,
      folded xAppended_def, unfolded Let_def]
  have pre: "(1::nat) < nextObj threeElements"
    "\<forall>s. getElementById (propKey (elementId (objs threeElements 1))) threeElements
         = Some (Elem s) \<longrightarrow>
       elementId (objs threeElements s) = Undefined
       \<or> elementId (objs threeElements s) = elementId (objs threeElements 1)"
    by (simp_all add: threeElements_facts getElementById_def plainGet_def
        no_builtin_childIds(1) [OF threeElements_facts(8)] prototypeFunctionNames_def)
  from t pre have "elementId (objs ?w' 1) = elementId (objs threeElements 1)"
    by blast
  then have i: "elementId (objs ?w' 1) = Def ''x''"
    by (simp add: threeElements_facts)
  have x: "plainGet xAppended (registry xAppended) ''root'' = Some (Elem 0)"
    by (simp add: plainGet_def xAppended_facts)
  have rm: "removeElement 1 (Some ''root'') xAppended
      = (None, setElements ((registry xAppended)(''x'' := None))
           (writeChildIds (Elem 0) (filter (\<lambda>c. c \<noteq> Def ''x'') [Def ''x''])
             (updObj 1 (\<lambda>x. x\<lparr>parentId := Def None\<rparr>) xAppended)))"
    using removeWithParent_found [OF x, of "[Def ''x'']" 1]
    by (simp add: removeElement_def xAppended_facts rootElement_record)
  have root: "registry ?w' ''root'' = Some (Elem 0)"
    unfolding rm by (simp add: xAppended_facts)
  have b: "builtinChildIds ?w' = (\<lambda>_. Undefined)"
    unfolding rm by (simp add: xAppended_facts)
  from t have "registry ?w' (propKey (elementId (objs ?w' 1))) = None"
    by blast
  with i have absent: "registry ?w' ''x'' = None"
    by simp
  from t have "getElementById (propKey (elementId (objs ?w' 1))) ?w'
      = map_option Builtin (inheritedMember ?w' (propKey (elementId (objs ?w' 1))))"
    by blast
  moreover have "inheritedMember ?w' ''x'' = None"
    unfolding no_builtin_childIds(1) [OF b] by (simp add: prototypeFunctionNames_def)
  ultimately have absent': "getElementById ''x'' ?w' = None"
    using i by simp
  from t have "\<forall>pa. registry ?w' ''root'' = Some pa \<longrightarrow>
      (\<exists>cs. readChildIds ?w' pa = Def cs \<and> elementId (objs ?w' 1) \<notin> set cs)"
    by simp
  with i root have "Def ''x'' \<notin> set (childIds (objs ?w' 0))"
    by force
  moreover from t have "fst (removeElement 1 (Some ''root'') xAppended) = None"
    by blast
  ultimately show ?thesis
    using absent absent' root by blast
qed


lemma readChildIds_updObj_parentId [simp]:
  "readChildIds (updObj e (\<lambda>x. x\<lparr>parentId := v\<rparr>) w) r = readChildIds w r"
  by (rule readChildIds_frame) simp_all

lemma removeWithParent_effect:
  "elementId (objs (snd (removeWithParent e q w)) a) = elementId (objs w a)"
  "parentId (objs (snd (removeWithParent e q w)) e) = Def None"
  "selectedId (store (snd (removeWithParent e q w))) = selectedId (store w)"
  "selectedKey (store (snd (removeWithParent e q w))) = selectedKey (store w)"
  by (simp_all add: removeWithParent_def Let_def split: option.splits undef.splits)

lemma removeElement_store:
  "selectedId (store (snd (removeElement e q w))) = selectedId (store w)"
  "selectedKey (store (snd (removeElement e q w))) = selectedKey (store w)"
  "elementId (objs (snd (removeElement e q w)) a) = elementId (objs w a)"
  by (simp_all add: removeElement_def removeWithParent_effect removeTopLevel_effect)

text \<open>
  C10 (amended).  For every element \<open>e\<close> and every non-empty parent id \<open>p\<close>,
  \<open>removeElement(e, p)\<close> sets \<open>e.parentId\<close> to \<open>null\<close> on the element object itself.
  For every parent id \<open>q\<close>, null and empty included, \<open>removeElement(e, q)\<close> leaves
  \<open>selectedId\<close> and \<open>selectedKey\<close> unchanged, so an element that was selected is
  still selected afterwards.  Both hold of the editor after the call whether the call
  returns or throws.
\<close>

theorem removeElement_detaches_keeps_selection:
  "(p \<noteq> [] \<longrightarrow> parentId (objs (snd (removeElement e (Some p) w)) e) = Def None)
   \<and> selectedId (store (snd (removeElement e q w))) = selectedId (store w)
   \<and> selectedKey (store (snd (removeElement e q w))) = selectedKey (store w)
   \<and> isSelected e (snd (removeElement e q w)) = isSelected e w"
  by (simp add: removeElement_store isSelected_def)
    (simp add: removeElement_def removeWithParent_effect)

theorem removeElement_detaches_keeps_selection_witness:
  "selectedId (store (select 1 xAppended)) = Def (Some ''x'')
   \<and> isSelected 1 (select 1 xAppended)
   \<and> parentId (objs (select 1 xAppended) 1) = Def (Some ''root'')
   \<and> fst (removeElement 1 (Some ''root'') (select 1 xAppended)) = None
   \<and> parentId (objs (snd (removeElement 1 (Some ''root'') (select 1 xAppended))) 1) = Def None
   \<and> selectedId (store (snd (removeElement 1 (Some ''root'') (select 1 xAppended))))
       = Def (Some ''x'')
   \<and> isSelected 1 (snd (removeElement 1 (Some ''root'') (select 1 xAppended)))
   \<and> registry (snd (removeElement 1 (Some ''root'') (select 1 xAppended))) ''x'' = None"
proof -
  let ?w = "select 1 xAppended"
  have sel: "selectedId (store ?w) = Def (Some ''x'')" "parentId (objs ?w 1) = Def (Some ''root'')"
    "isSelected 1 ?w"
    by (simp_all add: select_def isSelected_def xAppended_facts)
  have x: "plainGet ?w (registry ?w) ''root'' = Some (Elem 0)"
    "readChildIds ?w (Elem 0) = Def [Def ''x'']"
    "elementId (objs ?w 1) = Def ''x''"
    by (simp_all add: plainGet_def select_def registry_def xAppended_facts rootElement_record)
  have gone: "fst (removeElement 1 (Some ''root'') ?w) = None
      \<and> registry (snd (removeElement 1 (Some ''root'') ?w)) ''x'' = None"
    using removeWithParent_found [OF x(1,2), of 1] x(3)
    by (simp add: removeElement_def)
  have ne: "''root'' \<noteq> []"
    by simp
  from removeElement_detaches_keeps_selection [of "''root''" 1 ?w "Some ''root''"] ne
  have "parentId (objs (snd (removeElement 1 (Some ''root'') ?w)) 1) = Def None"
    and "selectedId (store (snd (removeElement 1 (Some ''root'') ?w))) = selectedId (store ?w)"
    and "isSelected 1 (snd (removeElement 1 (Some ''root'') ?w)) = isSelected 1 ?w"
    by blast+
  with sel gone show ?thesis
    by simp
qed

text \<open>
  C10 as stated fails for the empty string, which is a parent id that is not null:
  \<open>if (parentId)\<close> is false for it, and the element keeps its \<open>parentId\<close>.
\<close>

theorem removeElement_detaches_keeps_selection_counterexample:
  "parentId (objs xAppended 1) = Def (Some ''root'')
   \<and> parentId (objs (snd (removeElement 1 (Some '''') xAppended)) 1) = Def (Some ''root'')"
  by (simp add: removeElement_def removeTopLevel_effect xAppended_facts)

section \<open>The mapping object and the objects it shares\<close>

lemma appendWithParent_maps:
  "maps (appendWithParent e q w) a =
     (if a = nextMap w then registry (appendWithParent e q w) else maps w a)"
  "elements (store (appendWithParent e q w)) = nextMap w"
proof -
  define w1 where "w1 = updObj e (\<lambda>x. x\<lparr>parentId := Def (Some q)\<rparr>) w"
  obtain pa w2 where pa: "(case plainGet w (registry w) q of
                Some r \<Rightarrow> (r, w1)
              | None \<Rightarrow> (Elem (nextObj w), newObject w1)) = (pa, w2)"
    by (cases "plainGet w (registry w) q") simp_all
  define w3 where "w3 = writeChildIds pa (childIdsOrEmpty w2 pa @ [elementId (objs w2 e)]) w2"
  define st where "st = plainGet w3 (registry w) (propKey (elementId (objs w3 e)))"
  define w4 where "w4 = (case st of None \<Rightarrow> w3 | Some s \<Rightarrow> assignFrom e s w3)"
  let ?u = "appendWithParent e q w"
  have u: "?u = setElements (((registry w)(propKey (elementId (objs w4 e)) \<mapsto> Elem e))(q \<mapsto> pa))
       (updObj e (\<lambda>x. x\<lparr>index :=
           Def (numberToString (int (length (childIdsOrEmpty w4 pa)) - 1))\<rparr>) w4)"
    by (rule appendWithParent_unfold [OF w1_def pa w3_def]) (simp add: w4_def st_def)
  have w2: "w2 = w1 \<or> w2 = newObject w1"
    using pa by (auto split: option.splits)
  then have "maps w2 = maps w \<and> nextMap w2 = nextMap w"
    by (auto simp add: w1_def)
  then have "maps w3 = maps w \<and> nextMap w3 = nextMap w"
    by (simp add: w3_def)
  then have m4: "maps w4 = maps w \<and> nextMap w4 = nextMap w"
    by (cases st) (simp_all add: w4_def)
  show "maps ?u a = (if a = nextMap w then registry ?u else maps w a)"
    unfolding u using m4 by simp
  show "elements (store ?u) = nextMap w"
    unfolding u using m4 by simp
qed

lemma appendTopLevel_maps:
  "maps (appendTopLevel e w) a =
     (if a = nextMap w then registry (appendTopLevel e w) else maps w a)"
  "elements (store (appendTopLevel e w)) = nextMap w"
  by (simp_all add: appendTopLevel_def Let_def split: option.splits)

lemma appendElement_maps:
  "maps (appendElement e p w) a = (if a = nextMap w then registry (appendElement e p w) else maps w a)"
  "elements (store (appendElement e p w)) = nextMap w"
  by (simp_all add: appendElement_def appendWithParent_maps appendTopLevel_maps)

lemma removeWithParent_throws:
  "fst (removeWithParent e q w) = Some TypeError \<longleftrightarrow>
     (\<exists>pa. plainGet w (registry w) q = Some pa \<and> readChildIds w pa = Undefined)"
  "fst (removeWithParent e q w) = None \<or> fst (removeWithParent e q w) = Some TypeError"
  by (auto simp add: removeWithParent_def Let_def split: option.splits undef.splits)

lemma removeWithParent_maps:
  "fst (removeWithParent e q w) = None \<Longrightarrow>
     maps (snd (removeWithParent e q w)) a =
       (if a = nextMap w then registry (snd (removeWithParent e q w)) else maps w a)"
  "fst (removeWithParent e q w) = None \<Longrightarrow>
     elements (store (snd (removeWithParent e q w))) = nextMap w"
  "fst (removeWithParent e q w) = Some TypeError \<Longrightarrow>
     store (snd (removeWithParent e q w)) = store w
     \<and> maps (snd (removeWithParent e q w)) = maps w
     \<and> nextMap (snd (removeWithParent e q w)) = nextMap w"
  by (auto simp add: removeWithParent_def Let_def split: option.splits undef.splits)

text \<open>
  C3 (amended).  When the store's mapping is an allocated object, \<open>appendElement\<close> (with
  any parent id) makes the store refer to a new mapping object, and so does
  \<open>removeElement\<close> with a non-empty parent id when it returns.  It throws a
  \<open>TypeError\<close> exactly when the lookup of the parent id finds an object without
  \<open>childIds\<close> (a member that the mapping inherits), and then the store and every
  mapping object are as before.  In all these cases every mapping object that existed
  before, the previous \<open>elements\<close> mapping among them, keeps its keys and its references.
  The objects are shared, not copied: the previous mapping still leads to the parent
  object, and \<open>appendElement\<close> has updated that object's \<open>childIds\<close> in place.
\<close>

theorem registry_copy_on_write:
  assumes "elements (store w) < nextMap w"
  shows "elements (store (appendElement e p w)) \<noteq> elements (store w)
     \<and> maps (appendElement e p w) (elements (store w)) = registry w
     \<and> (\<forall>a<nextMap w. maps (appendElement e p w) a = maps w a)
     \<and> (truthy p \<longrightarrow>
          (let res = removeElement e p w; w' = snd res in
             maps w' (elements (store w)) = registry w
             \<and> (\<forall>a<nextMap w. maps w' a = maps w a)
             \<and> (fst res = None \<or> fst res = Some TypeError)
             \<and> (fst res = Some TypeError \<longleftrightarrow>
                  (\<exists>pa. getElementById (the p) w = Some pa \<and> readChildIds w pa = Undefined))
             \<and> (fst res = None \<longrightarrow> elements (store w') \<noteq> elements (store w))
             \<and> (fst res = Some TypeError \<longrightarrow> store w' = store w \<and> maps w' = maps w)))
     \<and> (truthy p \<longrightarrow>
          (\<forall>pa. getElementById (the p) w = Some pa \<longrightarrow> pa \<noteq> Elem e \<longrightarrow>
             maps (appendElement e p w) (elements (store w)) (the p) = registry w (the p)
             \<and> readChildIds (appendElement e p w) pa
                 = Def (childIdsOrEmpty w pa @ [elementId (objs w e)])))"
proof -
  have a: "elements (store (appendElement e p w)) \<noteq> elements (store w)"
    "maps (appendElement e p w) (elements (store w)) = registry w"
    "\<forall>a<nextMap w. maps (appendElement e p w) a = maps w a"
    using assms by (simp_all add: appendElement_maps registry_def)
  have r: "let res = removeElement e p w; w' = snd res in
             maps w' (elements (store w)) = registry w
             \<and> (\<forall>a<nextMap w. maps w' a = maps w a)
             \<and> (fst res = None \<or> fst res = Some TypeError)
             \<and> (fst res = Some TypeError \<longleftrightarrow>
                  (\<exists>pa. getElementById (the p) w = Some pa \<and> readChildIds w pa = Undefined))
             \<and> (fst res = None \<longrightarrow> elements (store w') \<noteq> elements (store w))
             \<and> (fst res = Some TypeError \<longrightarrow> store w' = store w \<and> maps w' = maps w)"
    if "truthy p"
  proof -
    have res: "removeElement e p w = removeWithParent e (the p) w"
      using that by (simp add: removeElement_def)
    have thr: "fst (removeWithParent e (the p) w) = Some TypeError \<longleftrightarrow>
        (\<exists>pa. getElementById (the p) w = Some pa \<and> readChildIds w pa = Undefined)"
      by (simp add: getElementById_def removeWithParent_throws(1))
    show ?thesis
    proof (cases "fst (removeWithParent e (the p) w)")
      case None
      then have "maps (snd (removeWithParent e (the p) w)) (elements (store w)) = registry w"
        "\<forall>a<nextMap w. maps (snd (removeWithParent e (the p) w)) a = maps w a"
        "elements (store (snd (removeWithParent e (the p) w))) \<noteq> elements (store w)"
        using assms by (simp_all add: removeWithParent_maps registry_def)
      then show ?thesis
        unfolding Let_def res thr [symmetric] using None by simp
    next
      case (Some err)
      then have t: "fst (removeWithParent e (the p) w) = Some TypeError"
        using removeWithParent_throws(2) [of e "the p" w] by simp
      then have "maps (snd (removeWithParent e (the p) w)) (elements (store w)) = registry w"
        "\<forall>a<nextMap w. maps (snd (removeWithParent e (the p) w)) a = maps w a"
        "store (snd (removeWithParent e (the p) w)) = store w"
        "maps (snd (removeWithParent e (the p) w)) = maps w"
        by (simp_all add: removeWithParent_maps(3) registry_def)
      then show ?thesis
        unfolding Let_def res thr [symmetric] using t by simp
    qed
  qed
  have c: "maps (appendElement e p w) (elements (store w)) (the p) = registry w (the p)
      \<and> readChildIds (appendElement e p w) pa
          = Def (childIdsOrEmpty w pa @ [elementId (objs w e)])"
    if "truthy p" "getElementById (the p) w = Some pa" "pa \<noteq> Elem e" for pa
  proof -
    define q where "q = the p"
    have q: "p = Some q" "q \<noteq> []"
      using that(1) by (cases p; simp add: q_def)+
    define w3 where "w3 = writeChildIds pa (childIdsOrEmpty w pa @ [elementId (objs w e)])
                 (updObj e (\<lambda>x. x\<lparr>parentId := Def (Some q)\<rparr>) w)"
    define w4 where "w4 = (case plainGet w3 (registry w) (propKey (elementId (objs w e))) of
                  None \<Rightarrow> w3
                | Some s \<Rightarrow> assignFrom e s w3)"
    have found: "plainGet w (registry w) q = Some pa"
      using that(2) q by (simp add: getElementById_def)
    note u = appendWithParent_steps [OF found w3_def w4_def]
    have "readChildIds (appendWithParent e q w) pa = readChildIds w4 pa"
      unfolding u by (rule readChildIds_frame) simp_all
    also have "readChildIds w4 pa = readChildIds w3 pa"
    proof (cases "plainGet w3 (registry w) (propKey (elementId (objs w e)))")
      case None
      then show ?thesis by (simp add: w4_def)
    next
      case (Some s)
      have "readChildIds (assignFrom e s w3) pa = readChildIds w3 pa"
        using that(3) by (intro readChildIds_frame(1)) auto
      then show ?thesis by (simp add: w4_def Some)
    qed
    also have "readChildIds w3 pa = Def (childIdsOrEmpty w pa @ [elementId (objs w e)])"
      by (simp add: w3_def)
    finally show ?thesis
      using a(2) q by (simp add: appendElement_def)
  qed
  from a r c show ?thesis
    by blast
qed

theorem registry_copy_on_write_witness:
  "elements (store threeElements) = 0
   \<and> elements (store xAppended) = 1
   \<and> maps xAppended 0 = registry threeElements
   \<and> maps xAppended 0 ''root'' = Some (Elem 0)
   \<and> childIds (objs xAppended 0) = childIds (objs threeElements 0) @ [Def ''x'']
   \<and> fst (removeElement 1 (Some ''root'') threeElements) = None
   \<and> elements (store (snd (removeElement 1 (Some ''root'') threeElements))) \<noteq> 0
   \<and> maps (snd (removeElement 1 (Some ''root'') threeElements)) 0 = registry threeElements"
proof -
  have pre: "elements (store threeElements) < nextMap threeElements"
    "truthy (Some ''root'')" "getElementById ''root'' threeElements = Some (Elem 0)"
    "Elem 0 \<noteq> Elem 1"
    by (simp_all add: threeElements_facts getElementById_def plainGet_def)
  have rd: "readChildIds threeElements (Elem 0) = Def []"
    "childIdsOrEmpty threeElements (Elem 0) = []"
    by (simp_all add: threeElements_facts rootElement_record)
  note t = registry_copy_on_write [OF pre(1), of 1 "Some ''root''", folded xAppended_def,
      unfolded Let_def]
  from t have m: "maps xAppended (elements (store threeElements)) = registry threeElements"
    by blast
  from t pre have "maps xAppended (elements (store threeElements)) ''root''
        = registry threeElements ''root''
      \<and> readChildIds xAppended (Elem 0)
          = Def (childIdsOrEmpty threeElements (Elem 0) @ [elementId (objs threeElements 1)])"
    by (metis option.sel)
  then have c: "maps xAppended 0 ''root'' = Some (Elem 0)"
    "childIds (objs xAppended 0) = childIds (objs threeElements 0) @ [Def ''x'']"
    by (simp_all add: threeElements_facts)
  have "\<not> (\<exists>pa. getElementById (the (Some ''root'')) threeElements = Some pa
      \<and> readChildIds threeElements pa = Undefined)"
    using pre(3) by simp
  with t pre(2) have r: "fst (removeElement 1 (Some ''root'') threeElements) = None"
    by blast
  with t pre(2) have "elements (store (snd (removeElement 1 (Some ''root'') threeElements)))
      \<noteq> elements (store threeElements)"
    "maps (snd (removeElement 1 (Some ''root'') threeElements)) (elements (store threeElements))
      = registry threeElements"
    by blast+
  with m c r show ?thesis
    by (simp add: threeElements_facts xAppended_facts)
qed

text \<open>
  C3 as stated fails.  A reader that holds the mapping of \<open>threeElements\<close> (the mapping
  object 0) finds, after \<open>appendElement\<close> of \<open>x\<close> under \<open>root\<close> has given
  \<open>xAppended\<close>, the same parent entry with changed \<open>childIds\<close>.
  \<open>removeElement\<close> with a null parent id makes no new mapping: it deletes the key from
  the mapping object the reader holds.  And \<open>removeElement\<close> with the parent id
  \<open>constructor\<close>, which is not registered, finds the inherited member, throws a
  \<open>TypeError\<close> and replaces nothing.
\<close>

theorem registry_copy_on_write_counterexample:
  "elements (store threeElements) = 0
   \<and> maps threeElements 0 ''root'' = Some (Elem 0)
   \<and> maps xAppended 0 ''root'' = Some (Elem 0)
   \<and> childIds (objs threeElements 0) = []
   \<and> childIds (objs xAppended 0) = [Def ''x'']
   \<and> maps xAppended (elements (store xAppended)) ''x'' = Some (Elem 1)
   \<and> elements (store (snd (removeElement 1 None xAppended))) = elements (store xAppended)
   \<and> maps (snd (removeElement 1 None xAppended)) (elements (store xAppended)) ''x'' = None
   \<and> registry xAppended ''constructor'' = None
   \<and> fst (removeElement 1 (Some ''constructor'') xAppended) = Some TypeError
   \<and> elements (store (snd (removeElement 1 (Some ''constructor'') xAppended)))
       = elements (store xAppended)"
proof -
  have c: "plainGet xAppended (registry xAppended) ''constructor''
      = Some (Builtin (Fn ''constructor''))"
    by (simp add: plainGet_def xAppended_facts no_builtin_childIds(1) [OF xAppended_facts(8)]
        prototypeFunctionNames_def)
  have u: "readChildIds xAppended (Builtin (Fn ''constructor'')) = Undefined"
    by (rule no_builtin_childIds(2) [OF xAppended_facts(8)])
  have "fst (removeElement 1 (Some ''constructor'') xAppended) = Some TypeError
      \<and> elements (store (snd (removeElement 1 (Some ''constructor'') xAppended)))
         = elements (store xAppended)"
    by (simp add: removeElement_def removeWithParent_def Let_def c u)
  then show ?thesis
    by (simp add: threeElements_facts xAppended_facts rootElement_record removeElement_def
        removeTopLevel_def)
qed

section \<open>Selection\<close>

text \<open>
  C9 (amended).  \<open>selectId(id)\<close> changes nothing when \<open>id\<close> is the empty string.
  Otherwise it sets \<open>selectedId\<close> to \<open>id\<close> and changes nothing else: \<open>selectedKey\<close>,
  the registry and the objects stay as they were.  It has no failure case and does not look
  the id up.  For an id that is not a key of the registry, \<open>getElementById\<close> gives what
  the mapping inherits under that name: \<open>undefined\<close> unless the id is one of the member
  names of \<open>Object.prototype\<close>, \<open>__proto__\<close>, or \<open>childIds\<close> once
  \<open>Object.prototype\<close> has been given that property.
\<close>

theorem selectId_sets_selectedId_only:
  "(i = [] \<longrightarrow> selectId i w = w)
   \<and> (i \<noteq> [] \<longrightarrow>
        selectId i w = w\<lparr>store := (store w)\<lparr>selectedId := Def (Some i)\<rparr>\<rparr>
        \<and> selectedId (store (selectId i w)) = Def (Some i)
        \<and> selectedKey (store (selectId i w)) = selectedKey (store w))
   \<and> getElementById j (selectId i w) = getElementById j w
   \<and> objs (selectId i w) = objs w
   \<and> (registry w i = None \<longrightarrow>
        getElementById i (selectId i w) = map_option Builtin (inheritedMember w i))
   \<and> (registry w i = None \<longrightarrow>
        (getElementById i (selectId i w) = None \<longleftrightarrow>
           i \<notin> set prototypeFunctionNames \<and> i \<noteq> ''__proto__''
           \<and> (i = ''childIds'' \<longrightarrow> builtinChildIds w ObjectPrototype = Undefined)))"
proof -
  have same: "getElementById j (selectId i w) = getElementById j w" for j
  proof -
    have "plainGet (selectId i w) = plainGet w"
      by (rule plainGet_eqI) (simp_all add: selectId_def)
    then show ?thesis
      by (simp add: getElementById_def selectId_def registry_def)
  qed
  have inh: "inheritedMember w i = None \<longleftrightarrow>
      i \<notin> set prototypeFunctionNames \<and> i \<noteq> ''__proto__''
      \<and> (i = ''childIds'' \<longrightarrow> builtinChildIds w ObjectPrototype = Undefined)"
    by (auto simp add: inheritedMember_def split: undef.splits)
  have look: "getElementById i w = map_option Builtin (inheritedMember w i)"
    if "registry w i = None"
    using that by (simp add: getElementById_def plainGet_not_own)
  show ?thesis
    unfolding same using look inh by (simp add: selectId_def)
qed

theorem selectId_sets_selectedId_only_witness:
  "registry xAppended ''ghost'' = None
   \<and> selectedId (store (selectId ''ghost'' xAppended)) = Def (Some ''ghost'')
   \<and> selectedKey (store (selectId ''ghost'' xAppended)) = Def None
   \<and> getElementById ''ghost'' (selectId ''ghost'' xAppended) = None
   \<and> selectId [] xAppended = xAppended"
proof -
  have absent: "registry xAppended ''ghost'' = None"
    by (simp add: xAppended_facts)
  have ne: "''ghost'' \<noteq> []" "''ghost'' \<notin> set prototypeFunctionNames"
    "''ghost'' \<noteq> ''__proto__''" "''ghost'' \<noteq> ''childIds''"
    by (simp_all add: prototypeFunctionNames_def)
  from selectId_sets_selectedId_only [of "''ghost''" xAppended] ne absent
  have "selectedId (store (selectId ''ghost'' xAppended)) = Def (Some ''ghost'')"
    and "selectedKey (store (selectId ''ghost'' xAppended)) = selectedKey (store xAppended)"
    and "getElementById ''ghost'' (selectId ''ghost'' xAppended) = None"
    by blast+
  moreover from selectId_sets_selectedId_only [of "[]" xAppended]
  have "selectId [] xAppended = xAppended"
    by blast
  ultimately show ?thesis
    using absent by (simp add: xAppended_facts)
qed

text \<open>
  C9 as stated fails for an id that names a member every plain object inherits:
  \<open>constructor\<close> is not a key of the registry, \<open>selectId\<close> selects it, and
  \<open>getElementById\<close> gives the inherited function instead of \<open>undefined\<close>.
\<close>

theorem selectId_sets_selectedId_only_counterexample:
  "registry xAppended ''constructor'' = None
   \<and> selectedId (store (selectId ''constructor'' xAppended)) = Def (Some ''constructor'')
   \<and> getElementById ''constructor'' (selectId ''constructor'' xAppended)
       = Some (Builtin (Fn ''constructor''))"
proof -
  have "plainGet (selectId ''constructor'' xAppended) = plainGet xAppended"
    by (rule plainGet_eqI) (simp_all add: selectId_def)
  then show ?thesis
    by (simp add: getElementById_def selectId_def registry_def plainGet_def
        xAppended_facts(4,5) no_builtin_childIds(1) [OF xAppended_facts(8)]
        prototypeFunctionNames_def)
qed

text \<open>
  C6.  When \<open>deleteElement(e)\<close> returns, that is, when \<open>element.delete()\<close> has not
  thrown, \<open>selectedId\<close> and \<open>selectedKey\<close> are both \<open>null\<close>, whatever the selection
  was before and whatever \<open>element.delete()\<close> did to the editor; no element is selected.
\<close>

theorem deleteElement_clears_selection:
  assumes "deleteElement elementDelete e w = Inr w'"
  shows "selectedId (store w') = Def None \<and> selectedKey (store w') = Def None
     \<and> (\<forall>a. \<not> isSelected a w')"
proof -
  obtain u where "w' = clearSelection u"
    using assms by (auto simp add: deleteElement_def split: sum.splits)
  then have s: "selectedId (store w') = Def None" "selectedKey (store w') = Def None"
    by (simp_all add: clearSelection_def)
  have "\<not> isSelected a w'" for a
    using s(1) by (cases "elementId (objs w' a)") (simp_all add: isSelected_def)
  with s show ?thesis
    by blast
qed

theorem deleteElement_clears_selection_witness:
  "selectedId (store (select 1 xAppended)) = Def (Some ''x'')
   \<and> isSelected 1 (select 1 xAppended)
   \<and> deleteElement (\<lambda>e w. Inr (snd (removeElement e None w))) 1 (select 1 xAppended)
       = Inr (clearSelection (snd (removeElement 1 None (select 1 xAppended))))
   \<and> selectedId (store (clearSelection (snd (removeElement 1 None (select 1 xAppended)))))
       = Def None
   \<and> selectedKey (store (clearSelection (snd (removeElement 1 None (select 1 xAppended)))))
       = Def None
   \<and> \<not> isSelected 1 (clearSelection (snd (removeElement 1 None (select 1 xAppended))))"
proof -
  have run: "deleteElement (\<lambda>e w. Inr (snd (removeElement e None w))) 1 (select 1 xAppended)
      = Inr (clearSelection (snd (removeElement 1 None (select 1 xAppended))))"
    by (simp add: deleteElement_def)
  have sel: "selectedId (store (select 1 xAppended)) = Def (Some ''x'')"
    "isSelected 1 (select 1 xAppended)"
    by (simp_all add: select_def isSelected_def xAppended_facts)
  from deleteElement_clears_selection [OF run] sel run show ?thesis
    by blast
qed

end
